theory Spec2Isabelle
  imports Main "HOL-Library.Char_ord" "HOL-Library.List_Lexorder" "HOL-Library.Product_Lexorder"
begin

section \<open>Data model\<close>

text \<open>
  A calendar date is (year, month, day) and a time of day is (hour, minute, second); both are
  ordered lexicographically, which is the chronological order.
\<close>

type_synonym calendar_date = "nat \<times> nat \<times> nat"
type_synonym time_of_day = "nat \<times> nat \<times> nat"

text \<open>
  One booking row, with the columns of \<open>UberBooking\<close> (api/main.py) and of the table
  \<open>uber_bookings\<close> (etl/load_csv_to_postgres.py). The queries guard \<open>date\<close>, \<open>time\<close> and
  \<open>payment_method\<close> with \<open>IS NOT NULL\<close>, so these three columns are nullable. In the
  delimited file the two identifiers carry their literal quote characters; in the table they
  are stored as \<open>normalize_dataframe\<close> leaves them. The surrogate key \<open>id\<close> of the table is
  read by no query and is left out.
\<close>

record booking =
  date :: "calendar_date option"
  time :: "time_of_day option"
  booking_id :: string
  booking_status :: string
  customer_id :: string
  vehicle_type :: string
  payment_method :: "string option"

text \<open>
  Result rows are tuples in the column order of the \<open>SELECT\<close> list (and of the pydantic
  response models where one is declared).
\<close>

type_synonym BookingStatusBreakdown = "string \<times> nat"           \<comment> \<open>booking_status, bookings\<close>
type_synonym HourlyBookings = "nat \<times> nat"                      \<comment> \<open>hour, unique_bookings\<close>
type_synonym WeeklyBookings = "nat \<times> string \<times> nat"             \<comment> \<open>weekday_num, weekday_name, unique_bookings\<close>
type_synonym MonthlyBookings = "string \<times> nat"                  \<comment> \<open>month, bookings\<close>
type_synonym CustomerPaymentMethod = "string \<times> string \<times> nat"   \<comment> \<open>customer_id, payment_method, bookings_for_method\<close>
type_synonym VehicleTypeStats = "string \<times> nat \<times> nat"           \<comment> \<open>vehicle_type, total_bookings, unique_customers\<close>
type_synonym PaymentMethodStats = "string \<times> nat"               \<comment> \<open>payment_method, total_bookings\<close>
type_synonym TopCustomer = "string \<times> nat"                      \<comment> \<open>customer_id, total_bookings\<close>

record bookings_response =
  bookings :: "booking list"
  total_found :: nat
  returned :: nat

text \<open>
  Failures of a request: an \<open>HTTPException\<close> raised by a handler, the rejection of a query
  parameter by its declared bounds (HTTP 422), a response row that does not fit its pydantic
  model, and a statement refused by the SQL engine.
\<close>

datatype error =
    HTTPException nat string
  | RequestValidationError
  | ValidationError
  | EngineError

section \<open>The SQL and dataframe operations the queries are built from\<close>

definition quote :: char where
  "quote = CHR 0x22"

text \<open>
  \<open>REPLACE(s, pat, rep)\<close> of the SQL engines, and pandas' \<open>str.replace(pat, rep, regex=False)\<close>
  for a non-empty pattern: every occurrence of \<open>pat\<close>, scanning from the left, becomes \<open>rep\<close>.
\<close>

fun REPLACE :: "string \<Rightarrow> string \<Rightarrow> string \<Rightarrow> string" where
  "REPLACE [] pat rep = []"
| "REPLACE (c # cs) pat rep =
     (if pat \<noteq> [] \<and> take (length pat) (c # cs) = pat
      then rep @ REPLACE (drop (length pat) (c # cs)) pat rep
      else c # REPLACE cs pat rep)"

text \<open>The expression \<open>REPLACE(col, '"', '')\<close> that every file-backed query applies to an identifier.\<close>

definition strip_quotes :: "string \<Rightarrow> string" where
  "strip_quotes s = REPLACE s [quote] []"

text \<open>\<open>COUNT(DISTINCT e)\<close> over the values of \<open>e\<close> in one group.\<close>

definition COUNT_DISTINCT :: "'a list \<Rightarrow> nat" where
  "COUNT_DISTINCT xs = length (remdups xs)"

text \<open>
  \<open>GROUP BY key\<close>: one group per distinct key, the groups listed in the order in which their
  keys first occur in the scan. (SQL leaves that order open; the model fixes it.)
\<close>

definition distinct_keys :: "'k list \<Rightarrow> 'k list" where
  "distinct_keys ks = rev (remdups (rev ks))"

definition GROUP_BY :: "('r \<Rightarrow> 'k) \<Rightarrow> 'r list \<Rightarrow> ('k \<times> 'r list) list" where
  "GROUP_BY key rows = map (\<lambda>k. (k, filter (\<lambda>r. key r = k) rows)) (distinct_keys (map key rows))"

text \<open>
  \<open>ORDER BY e\<close> and \<open>ORDER BY e DESC\<close> as a stable insertion sort, so rows with equal keys keep
  their order. \<open>LIMIT n\<close> keeps the first \<open>n\<close> rows.
\<close>

definition ORDER_BY :: "('a \<Rightarrow> 'k::linorder) \<Rightarrow> 'a list \<Rightarrow> 'a list" where
  "ORDER_BY f xs = sort_key f xs"

definition ORDER_BY_DESC :: "('a \<Rightarrow> nat) \<Rightarrow> 'a list \<Rightarrow> 'a list" where
  "ORDER_BY_DESC f xs = sort_key (\<lambda>x. - int (f x)) xs"

text \<open>
  \<open>ORDER BY e DESC\<close> where the order among rows with equal \<open>e\<close> is the engine's in that
  execution of the statement: \<open>ties\<close> ranks the rows, and rows with equal \<open>e\<close> come out by
  ascending rank. Every order the statement admits is the result for some \<open>ties\<close>
  (\<open>ORDER_BY_DESC_ties_any\<close> below).
\<close>

definition ORDER_BY_DESC_ties :: "('a \<Rightarrow> nat) \<Rightarrow> ('a \<Rightarrow> nat) \<Rightarrow> 'a list \<Rightarrow> 'a list" where
  "ORDER_BY_DESC_ties f ties xs = sort_key (\<lambda>x. (- int (f x), ties x)) xs"

definition LIMIT :: "nat \<Rightarrow> 'a list \<Rightarrow> 'a list" where
  "LIMIT n xs = take n xs"

text \<open>\<open>EXTRACT(hour FROM t)\<close>.\<close>

definition EXTRACT_hour :: "time_of_day \<Rightarrow> nat" where
  "EXTRACT_hour t = fst t"

text \<open>
  \<open>EXTRACT(dow FROM d)\<close>: the day of the week of a Gregorian date, 0 for Sunday up to 6 for
  Saturday.
\<close>

definition month_offset :: "nat \<Rightarrow> nat" where
  "month_offset m = (if 1 \<le> m \<and> m \<le> 12 then [0, 3, 2, 5, 0, 3, 5, 1, 4, 6, 2, 4] ! (m - 1) else 0)"

definition EXTRACT_dow :: "calendar_date \<Rightarrow> nat" where
  "EXTRACT_dow dt =
     (case dt of (y, m, d) \<Rightarrow>
        let y' = (if m < 3 then y - 1 else y)
        in (y' + y' div 4 - y' div 100 + y' div 400 + month_offset m + d) mod 7)"

text \<open>The \<open>CASE ... WHEN 0 THEN 'Sunday' ... END\<close> of the weekday query; no branch means NULL.\<close>

definition weekday_name :: "nat \<Rightarrow> string option" where
  "weekday_name n =
     (if n = 0 then Some ''Sunday'' else if n = 1 then Some ''Monday''
      else if n = 2 then Some ''Tuesday'' else if n = 3 then Some ''Wednesday''
      else if n = 4 then Some ''Thursday'' else if n = 5 then Some ''Friday''
      else if n = 6 then Some ''Saturday'' else None)"

text \<open>\<open>strftime(d, '%Y-%m')\<close> and \<open>TO_CHAR(d, 'YYYY-MM')\<close>: zero-padded year and month.\<close>

definition digit :: "nat \<Rightarrow> char" where
  "digit n = ''0123456789'' ! (n mod 10)"

fun show_nat :: "nat \<Rightarrow> string" where
  "show_nat n = (if n < 10 then [digit n] else show_nat (n div 10) @ [digit n])"

definition zero_pad :: "nat \<Rightarrow> string \<Rightarrow> string" where
  "zero_pad w s = replicate (w - length s) (CHR ''0'') @ s"

definition year_month :: "calendar_date \<Rightarrow> string" where
  "year_month dt = (case dt of (y, m, d) \<Rightarrow> zero_pad 4 (show_nat y) @ ''-'' @ zero_pad 2 (show_nat m))"

text \<open>
  Building the rows of a response model whose field is a plain \<open>str\<close>: a row whose value is
  NULL does not validate, and the request fails.
\<close>

fun validate_rows :: "('a \<Rightarrow> 'b option) \<Rightarrow> 'a list \<Rightarrow> error + 'b list" where
  "validate_rows f [] = Inr []"
| "validate_rows f (x # xs) =
     (case f x of
        None \<Rightarrow> Inl ValidationError
      | Some y \<Rightarrow> (case validate_rows f xs of Inl e \<Rightarrow> Inl e | Inr ys \<Rightarrow> Inr (y # ys)))"

text \<open>
  A query parameter declared \<open>Query(default, ge=lo, le=hi)\<close>: absent, it takes the default; out
  of bounds, the request is rejected before the handler runs.
\<close>

definition Query :: "int \<Rightarrow> int \<Rightarrow> int \<Rightarrow> int option \<Rightarrow> error + int" where
  "Query dflt lo hi arg =
     (case arg of
        None \<Rightarrow> Inr dflt
      | Some v \<Rightarrow> if lo \<le> v \<and> v \<le> hi then Inr v else Inl RequestValidationError)"

text \<open>Python's truth value of an optional string: \<open>None\<close> and the empty string are false.\<close>

definition truthy :: "string option \<Rightarrow> bool" where
  "truthy s = (case s of None \<Rightarrow> False | Some v \<Rightarrow> v \<noteq> [])"

text \<open>
  \<open>DataFrame.head(n)\<close>: the first \<open>n\<close> rows, and for a negative \<open>n\<close> all rows but the last
  \<open>-n\<close>.
\<close>

definition head :: "int \<Rightarrow> 'a list \<Rightarrow> 'a list" where
  "head n xs = (if 0 \<le> n then take (nat n) xs else take (length xs - nat (- n)) xs)"

text \<open>
  \<open>read_csv_auto\<close> gives a column of the file the type of its values; a column without any
  value, and so every column of a file without data rows, is read as text. \<open>EXTRACT\<close> and
  \<open>strftime\<close> applied to a text column are refused when the statement is bound.
\<close>

definition typed_column :: "('r \<Rightarrow> 'a option) \<Rightarrow> 'r list \<Rightarrow> bool" where
  "typed_column col rows = list_ex (\<lambda>r. col r \<noteq> None) rows"

text \<open>
  The shape shared by the aggregates: \<open>SELECT key, COUNT(DISTINCT ident) FROM rows GROUP BY key\<close>.
\<close>

definition SELECT_COUNT_DISTINCT :: "('r \<Rightarrow> 'k) \<Rightarrow> ('r \<Rightarrow> 'i) \<Rightarrow> 'r list \<Rightarrow> ('k \<times> nat) list" where
  "SELECT_COUNT_DISTINCT key ident rows =
     map (\<lambda>(k, g). (k, COUNT_DISTINCT (map ident g))) (GROUP_BY key rows)"

section \<open>File-backed variant (api/main.py)\<close>

text \<open>
  The aggregates query the delimited file itself, given here as its rows \<open>csv\<close>; the listing
  and the lookup read the in-memory cache \<open>df_cache\<close>, which is \<open>None\<close> until \<open>load_df\<close> ran.
\<close>

definition load_df :: "booking list \<Rightarrow> booking list option" where
  "load_df csv = Some csv"

definition get_booking_status_breakdown :: "booking list \<Rightarrow> BookingStatusBreakdown list" where
  "get_booking_status_breakdown csv =
     ORDER_BY_DESC snd
       (SELECT_COUNT_DISTINCT booking_status (\<lambda>r. strip_quotes (booking_id r)) csv)"

definition get_bookings_per_hour :: "booking list \<Rightarrow> error + HourlyBookings list" where
  "get_bookings_per_hour csv =
     (if \<not> typed_column time csv then Inl EngineError
      else Inr (ORDER_BY fst
        (SELECT_COUNT_DISTINCT (\<lambda>r. EXTRACT_hour (the (time r))) (\<lambda>r. strip_quotes (booking_id r))
           (filter (\<lambda>r. time r \<noteq> None) csv))))"

definition get_bookings_per_weekday :: "booking list \<Rightarrow> error + WeeklyBookings list" where
  "get_bookings_per_weekday csv =
     (if \<not> typed_column date csv then Inl EngineError
      else validate_rows (\<lambda>((num, name), n). map_option (\<lambda>s. (num, s, n)) name)
        (ORDER_BY (\<lambda>((num, name), n). num)
           (SELECT_COUNT_DISTINCT
              (\<lambda>r. (EXTRACT_dow (the (date r)), weekday_name (EXTRACT_dow (the (date r)))))
              (\<lambda>r. strip_quotes (booking_id r))
              (filter (\<lambda>r. date r \<noteq> None) csv))))"

definition get_bookings_per_month :: "booking list \<Rightarrow> error + MonthlyBookings list" where
  "get_bookings_per_month csv =
     (if \<not> typed_column date csv then Inl EngineError
      else Inr (ORDER_BY fst
        (SELECT_COUNT_DISTINCT (\<lambda>r. year_month (the (date r))) (\<lambda>r. strip_quotes (booking_id r))
           (filter (\<lambda>r. date r \<noteq> None) csv))))"

definition get_peak_hours :: "int \<Rightarrow> booking list \<Rightarrow> error + HourlyBookings list" where
  "get_peak_hours limit csv =
     (if \<not> typed_column time csv \<or> limit < 0 then Inl EngineError
      else Inr (LIMIT (nat limit)
        (ORDER_BY_DESC snd
          (SELECT_COUNT_DISTINCT (\<lambda>r. EXTRACT_hour (the (time r))) (\<lambda>r. strip_quotes (booking_id r))
             (filter (\<lambda>r. time r \<noteq> None) csv)))))"

definition get_vehicle_type_stats :: "booking list \<Rightarrow> VehicleTypeStats list" where
  "get_vehicle_type_stats csv =
     ORDER_BY_DESC (\<lambda>(vt, total, customers). total)
       (map (\<lambda>(k, g). (k, COUNT_DISTINCT (map (\<lambda>r. strip_quotes (booking_id r)) g),
                          COUNT_DISTINCT (map (\<lambda>r. strip_quotes (customer_id r)) g)))
            (GROUP_BY vehicle_type csv))"

definition get_payment_method_stats :: "booking list \<Rightarrow> PaymentMethodStats list" where
  "get_payment_method_stats csv =
     ORDER_BY_DESC snd
       (SELECT_COUNT_DISTINCT (\<lambda>r. the (payment_method r)) (\<lambda>r. strip_quotes (booking_id r))
          (filter (\<lambda>r. payment_method r \<noteq> None \<and> payment_method r \<noteq> Some []) csv))"

definition get_top_customers ::
  "(TopCustomer \<Rightarrow> nat) \<Rightarrow> int \<Rightarrow> booking list \<Rightarrow> error + TopCustomer list" where
  "get_top_customers ties limit csv =
     (if limit < 0 then Inl EngineError
      else Inr (LIMIT (nat limit)
        (ORDER_BY_DESC_ties snd ties
          (SELECT_COUNT_DISTINCT (\<lambda>r. strip_quotes (customer_id r))
             (\<lambda>r. strip_quotes (booking_id r)) csv))))"

text \<open>
  The two statements that rank the customers have no column to break ties, and each execution
  orders the customers with equal counts as the engine happens to: the handlers take that
  order as \<open>ties\<close>. \<open>top_customer\<close> is the common table expression of the last aggregate.
\<close>

definition top_customer :: "(TopCustomer \<Rightarrow> nat) \<Rightarrow> booking list \<Rightarrow> TopCustomer list" where
  "top_customer ties csv =
     LIMIT 1
       (ORDER_BY_DESC_ties snd ties
          (SELECT_COUNT_DISTINCT (\<lambda>r. strip_quotes (customer_id r))
             (\<lambda>r. strip_quotes (booking_id r)) csv))"

definition get_top_customer_payment_methods ::
  "(TopCustomer \<Rightarrow> nat) \<Rightarrow> booking list \<Rightarrow> error + CustomerPaymentMethod list" where
  "get_top_customer_payment_methods ties csv =
     validate_rows (\<lambda>((cid, pm), n). map_option (\<lambda>s. (cid, s, n)) pm)
       (ORDER_BY_DESC snd
          (SELECT_COUNT_DISTINCT (\<lambda>(v, t). (fst t, payment_method v))
             (\<lambda>(v, t). strip_quotes (booking_id v))
             [(v, t). v \<leftarrow> csv, t \<leftarrow> top_customer ties csv, strip_quotes (customer_id v) = fst t]))"

text \<open>
  The listing. The handler is the Python function: it takes the limit it is given; the bounds
  of the parameter are checked by the route (below). The cache is returned with the result.
  The handler turns NaN cells into \<open>None\<close>; with the nullable columns as options that
  step changes nothing.
\<close>

definition get_bookings ::
  "int \<Rightarrow> string option \<Rightarrow> string option \<Rightarrow> string option \<Rightarrow> booking list option
     \<Rightarrow> (error + bookings_response) \<times> booking list option" where
  "get_bookings limit status vehicle_type' customer_id' df_cache =
     (case df_cache of
        None \<Rightarrow> (Inl (HTTPException 500 ''Data not loaded''), df_cache)
      | Some df \<Rightarrow>
          let filtered_df = df;
              filtered_df = (if truthy status
                             then filter (\<lambda>r. Some (booking_status r) = status) filtered_df
                             else filtered_df);
              filtered_df = (if truthy vehicle_type'
                             then filter (\<lambda>r. Some (vehicle_type r) = vehicle_type') filtered_df
                             else filtered_df);
              filtered_df = (if truthy customer_id'
                             then filter (\<lambda>r. customer_id r = [quote] @ the customer_id' @ [quote])
                                    filtered_df
                             else filtered_df);
              result = head limit filtered_df
          in (Inr \<lparr>bookings = result, total_found = length filtered_df, returned = length result\<rparr>,
              df_cache))"

definition get_booking_by_id :: "string \<Rightarrow> booking list option \<Rightarrow> (error + booking) \<times> booking list option" where
  "get_booking_by_id booking_id' df_cache =
     (case df_cache of
        None \<Rightarrow> (Inl (HTTPException 500 ''Data not loaded''), df_cache)
      | Some df \<Rightarrow>
          let clean_booking_id = [quote] @ booking_id' @ [quote];
              booking = filter (\<lambda>r. booking_id r = clean_booking_id) df
          in (case booking of
                [] \<Rightarrow> (Inl (HTTPException 404 ''Booking not found''), df_cache)
              | booking_data # _ \<Rightarrow> (Inr booking_data, df_cache)))"

text \<open>The routes: the declared bounds of \<open>limit\<close> are checked first, then the handler runs.\<close>

definition GET_peak_hours :: "int option \<Rightarrow> booking list \<Rightarrow> error + HourlyBookings list" where
  "GET_peak_hours arg csv =
     (case Query 5 1 24 arg of Inl e \<Rightarrow> Inl e | Inr limit \<Rightarrow> get_peak_hours limit csv)"

definition GET_top_customers ::
  "(TopCustomer \<Rightarrow> nat) \<Rightarrow> int option \<Rightarrow> booking list \<Rightarrow> error + TopCustomer list" where
  "GET_top_customers ties arg csv =
     (case Query 10 1 100 arg of
        Inl e \<Rightarrow> Inl e
      | Inr limit \<Rightarrow> get_top_customers ties limit csv)"

definition GET_bookings ::
  "int option \<Rightarrow> string option \<Rightarrow> string option \<Rightarrow> string option \<Rightarrow> booking list option
     \<Rightarrow> (error + bookings_response) \<times> booking list option" where
  "GET_bookings arg status vehicle_type' customer_id' df_cache =
     (case Query 100 1 1000 arg of
        Inl e \<Rightarrow> (Inl e, df_cache)
      | Inr limit \<Rightarrow> get_bookings limit status vehicle_type' customer_id' df_cache)"

section \<open>Store-backed variant (api/main_db.py)\<close>

text \<open>Every query reads the table \<open>uber_bookings\<close>, given as its rows \<open>tbl\<close>.\<close>

definition db_get_booking_status_breakdown :: "booking list \<Rightarrow> BookingStatusBreakdown list" where
  "db_get_booking_status_breakdown tbl =
     ORDER_BY_DESC snd (SELECT_COUNT_DISTINCT booking_status booking_id tbl)"

definition db_get_bookings_per_hour :: "booking list \<Rightarrow> HourlyBookings list" where
  "db_get_bookings_per_hour tbl =
     ORDER_BY fst
       (SELECT_COUNT_DISTINCT (\<lambda>r. EXTRACT_hour (the (time r))) booking_id
          (filter (\<lambda>r. time r \<noteq> None) tbl))"

definition db_get_bookings_per_weekday :: "booking list \<Rightarrow> error + WeeklyBookings list" where
  "db_get_bookings_per_weekday tbl =
     validate_rows (\<lambda>((num, name), n). map_option (\<lambda>s. (num, s, n)) name)
       (ORDER_BY (\<lambda>((num, name), n). num)
          (SELECT_COUNT_DISTINCT
             (\<lambda>r. (EXTRACT_dow (the (date r)), weekday_name (EXTRACT_dow (the (date r)))))
             booking_id
             (filter (\<lambda>r. date r \<noteq> None) tbl)))"

definition db_get_bookings_per_month :: "booking list \<Rightarrow> MonthlyBookings list" where
  "db_get_bookings_per_month tbl =
     ORDER_BY fst
       (SELECT_COUNT_DISTINCT (\<lambda>r. year_month (the (date r))) booking_id
          (filter (\<lambda>r. date r \<noteq> None) tbl))"

definition db_get_peak_hours :: "int \<Rightarrow> booking list \<Rightarrow> error + HourlyBookings list" where
  "db_get_peak_hours limit tbl =
     (if limit < 0 then Inl EngineError
      else Inr (LIMIT (nat limit)
        (ORDER_BY_DESC snd
          (SELECT_COUNT_DISTINCT (\<lambda>r. EXTRACT_hour (the (time r))) booking_id
             (filter (\<lambda>r. time r \<noteq> None) tbl)))))"

definition db_get_vehicle_type_stats :: "booking list \<Rightarrow> VehicleTypeStats list" where
  "db_get_vehicle_type_stats tbl =
     ORDER_BY_DESC (\<lambda>(vt, total, customers). total)
       (map (\<lambda>(k, g). (k, COUNT_DISTINCT (map booking_id g), COUNT_DISTINCT (map customer_id g)))
            (GROUP_BY vehicle_type tbl))"

definition db_get_payment_method_stats :: "booking list \<Rightarrow> PaymentMethodStats list" where
  "db_get_payment_method_stats tbl =
     ORDER_BY_DESC snd
       (SELECT_COUNT_DISTINCT (\<lambda>r. the (payment_method r)) booking_id
          (filter (\<lambda>r. payment_method r \<noteq> None \<and> payment_method r \<noteq> Some []) tbl))"

definition db_get_top_customers ::
  "(TopCustomer \<Rightarrow> nat) \<Rightarrow> int \<Rightarrow> booking list \<Rightarrow> error + TopCustomer list" where
  "db_get_top_customers ties limit tbl =
     (if limit < 0 then Inl EngineError
      else Inr (LIMIT (nat limit)
        (ORDER_BY_DESC_ties snd ties (SELECT_COUNT_DISTINCT customer_id booking_id tbl))))"

definition db_top_customer :: "(TopCustomer \<Rightarrow> nat) \<Rightarrow> booking list \<Rightarrow> TopCustomer list" where
  "db_top_customer ties tbl =
     LIMIT 1 (ORDER_BY_DESC_ties snd ties (SELECT_COUNT_DISTINCT customer_id booking_id tbl))"

definition db_get_top_customer_payment_methods ::
  "(TopCustomer \<Rightarrow> nat) \<Rightarrow> booking list \<Rightarrow> error + CustomerPaymentMethod list" where
  "db_get_top_customer_payment_methods ties tbl =
     validate_rows (\<lambda>((cid, pm), n). map_option (\<lambda>s. (cid, s, n)) pm)
       (ORDER_BY_DESC snd
          (SELECT_COUNT_DISTINCT (\<lambda>(v, t). (fst t, payment_method v))
             (\<lambda>(v, t). booking_id v)
             [(v, t). v \<leftarrow> tbl, t \<leftarrow> db_top_customer ties tbl, customer_id v = fst t]))"

text \<open>\<open>ORDER BY date, time, booking_id\<close>, ascending; the engine puts NULLs last.\<close>

definition nulls_last :: "'a option \<Rightarrow> 'a \<Rightarrow> bool \<times> 'a" where
  "nulls_last v dflt = (case v of None \<Rightarrow> (True, dflt) | Some x \<Rightarrow> (False, x))"

definition listing_order :: "booking \<Rightarrow> (bool \<times> calendar_date) \<times> (bool \<times> time_of_day) \<times> string" where
  "listing_order r = (nulls_last (date r) (0, 0, 0), nulls_last (time r) (0, 0, 0), booking_id r)"

text \<open>The \<open>WHERE\<close> clause assembled from the filters that are set, joined with \<open>AND\<close>.\<close>

definition where_sql :: "string option \<Rightarrow> string option \<Rightarrow> string option \<Rightarrow> booking \<Rightarrow> bool" where
  "where_sql status vehicle_type' customer_id' r =
     ((truthy status \<longrightarrow> Some (booking_status r) = status) \<and>
      (truthy vehicle_type' \<longrightarrow> Some (vehicle_type r) = vehicle_type') \<and>
      (truthy customer_id' \<longrightarrow> Some (customer_id r) = customer_id'))"

definition db_get_bookings ::
  "int \<Rightarrow> string option \<Rightarrow> string option \<Rightarrow> string option \<Rightarrow> booking list
     \<Rightarrow> error + bookings_response" where
  "db_get_bookings limit status vehicle_type' customer_id' tbl =
     (let total = length (filter (where_sql status vehicle_type' customer_id') tbl)
      in if limit < 0 then Inl EngineError
         else let rows = LIMIT (nat limit)
                           (ORDER_BY listing_order
                              (filter (where_sql status vehicle_type' customer_id') tbl))
              in Inr \<lparr>bookings = rows, total_found = total, returned = length rows\<rparr>)"

definition db_get_booking_by_id :: "string \<Rightarrow> booking list \<Rightarrow> error + booking" where
  "db_get_booking_by_id booking_id' tbl =
     (case LIMIT 1 (filter (\<lambda>r. booking_id r = booking_id') tbl) of
        [] \<Rightarrow> Inl (HTTPException 404 ''Booking not found'')
      | row # _ \<Rightarrow> Inr row)"

definition db_GET_peak_hours :: "int option \<Rightarrow> booking list \<Rightarrow> error + HourlyBookings list" where
  "db_GET_peak_hours arg tbl =
     (case Query 5 1 24 arg of Inl e \<Rightarrow> Inl e | Inr limit \<Rightarrow> db_get_peak_hours limit tbl)"

definition db_GET_top_customers ::
  "(TopCustomer \<Rightarrow> nat) \<Rightarrow> int option \<Rightarrow> booking list \<Rightarrow> error + TopCustomer list" where
  "db_GET_top_customers ties arg tbl =
     (case Query 10 1 100 arg of
        Inl e \<Rightarrow> Inl e
      | Inr limit \<Rightarrow> db_get_top_customers ties limit tbl)"

definition db_GET_bookings ::
  "int option \<Rightarrow> string option \<Rightarrow> string option \<Rightarrow> string option \<Rightarrow> booking list
     \<Rightarrow> error + bookings_response" where
  "db_GET_bookings arg status vehicle_type' customer_id' tbl =
     (case Query 100 1 1000 arg of
        Inl e \<Rightarrow> Inl e
      | Inr limit \<Rightarrow> db_get_bookings limit status vehicle_type' customer_id' tbl)"

section \<open>Load-time normalization (etl/load_csv_to_postgres.py)\<close>

text \<open>
  \<open>normalize_dataframe\<close> on rows whose date and time are already parsed: the two identifiers
  lose their quote characters and a missing payment method becomes the empty string.
\<close>

definition normalize_dataframe :: "booking list \<Rightarrow> booking list" where
  "normalize_dataframe df =
     map (\<lambda>r. r\<lparr>booking_id := REPLACE (booking_id r) [quote] [],
                customer_id := REPLACE (customer_id r) [quote] [],
                payment_method := Some (case payment_method r of None \<Rightarrow> [] | Some s \<Rightarrow> s)\<rparr>) df"

text \<open>
  \<open>upsert_rows\<close>: every batch is one \<open>INSERT ... ON CONFLICT (booking_id) DO NOTHING\<close>, whose
  effect is row by row: a row whose \<open>booking_id\<close> the table already holds is skipped. The
  batches are consecutive slices of the rows, so the rows reach the table in their order. A row
  that the columns of \<open>define_schema\<close> refuse (no date or time, a text of more than 50
  characters) fails its statement, and the transaction is rolled back. The result is the number
  of rows inserted and the table.
\<close>

definition fits_schema :: "booking \<Rightarrow> bool" where
  "fits_schema r =
     (date r \<noteq> None \<and> time r \<noteq> None \<and> length (booking_id r) \<le> 50 \<and>
      length (booking_status r) \<le> 50 \<and> length (customer_id r) \<le> 50 \<and>
      length (vehicle_type r) \<le> 50 \<and>
      (case payment_method r of None \<Rightarrow> True | Some p \<Rightarrow> length p \<le> 50))"

definition on_conflict_do_nothing :: "booking \<Rightarrow> nat \<times> booking list \<Rightarrow> nat \<times> booking list" where
  "on_conflict_do_nothing r st =
     (case st of (inserted, tbl) \<Rightarrow>
        if booking_id r \<in> set (map booking_id tbl) then (inserted, tbl)
        else (inserted + 1, tbl @ [r]))"

definition upsert_rows :: "booking list \<Rightarrow> booking list \<Rightarrow> error + nat \<times> booking list" where
  "upsert_rows tbl rows =
     (if list_all fits_schema rows then Inr (fold on_conflict_do_nothing rows (0, tbl))
      else Inl EngineError)"

text \<open>The table that \<open>main\<close> leaves when it loads a file into the empty table.\<close>

definition loaded_table :: "booking list \<Rightarrow> booking list" where
  "loaded_table csv =
     (case upsert_rows [] (normalize_dataframe csv) of Inl e \<Rightarrow> [] | Inr (inserted, tbl) \<Rightarrow> tbl)"

section \<open>Notions of the specification and example data\<close>

text \<open>
  The distinct-booking count of a set of rows: the number of distinct \<open>booking_id\<close> values
  after the quote-stripping of the queries, which removes every quote character. In the table
  the identifiers are stored already stripped, and the count is over the stored values.
\<close>

definition spec_distinct_bookings :: "booking set \<Rightarrow> nat" where
  "spec_distinct_bookings S = card ((\<lambda>r. strip_quotes (booking_id r)) ` S)"

definition stored_distinct_bookings :: "booking set \<Rightarrow> nat" where
  "stored_distinct_bookings S = card (booking_id ` S)"

text \<open>
  The count with the stripping of the specification's words, which removes a single pair of
  quotes (\<open>strip_one_pair\<close> below).
\<close>

definition strip_one_pair :: "string \<Rightarrow> string" where
  "strip_one_pair s =
     (if 2 \<le> length s \<and> hd s = quote \<and> last s = quote then butlast (tl s) else s)"


text \<open>A file in which the same booking row occurs twice, and the table its load leaves.\<close>

definition duplicated_rows :: "booking list" where
  "duplicated_rows =
     [\<lparr>date = Some (2025, 9, 2), time = Some (8, 15, 0), booking_id = [quote] @ ''B001'' @ [quote],
       booking_status = ''Completed'', customer_id = [quote] @ ''C001'' @ [quote],
       vehicle_type = ''Sedan'', payment_method = Some ''Card''\<rparr>,
      \<lparr>date = Some (2025, 9, 2), time = Some (8, 15, 0), booking_id = [quote] @ ''B001'' @ [quote],
       booking_status = ''Completed'', customer_id = [quote] @ ''C001'' @ [quote],
       vehicle_type = ''Sedan'', payment_method = Some ''Card''\<rparr>]"

definition duplicated_table :: "booking list" where
  "duplicated_table = loaded_table duplicated_rows"

text \<open>The same booking re-emitted with a different status.\<close>

definition reissued_rows :: "booking list" where
  "reissued_rows =
     [\<lparr>date = Some (2025, 9, 2), time = Some (8, 15, 0), booking_id = [quote] @ ''B001'' @ [quote],
       booking_status = ''Completed'', customer_id = [quote] @ ''C001'' @ [quote],
       vehicle_type = ''Sedan'', payment_method = Some ''Card''\<rparr>,
      \<lparr>date = Some (2025, 9, 2), time = Some (8, 15, 0), booking_id = [quote] @ ''B001'' @ [quote],
       booking_status = ''Cancelled'', customer_id = [quote] @ ''C001'' @ [quote],
       vehicle_type = ''Sedan'', payment_method = Some ''Card''\<rparr>]"

text \<open>The four rows of the test suite (tests/test_api.py), and the table rows made from them.\<close>

definition sample_rows :: "booking list" where
  "sample_rows =
     [\<lparr>date = Some (2025, 9, 1), time = Some (8, 15, 0), booking_id = [quote] @ ''B001'' @ [quote],
       booking_status = ''Completed'', customer_id = [quote] @ ''C001'' @ [quote],
       vehicle_type = ''Sedan'', payment_method = Some ''Card''\<rparr>,
      \<lparr>date = Some (2025, 9, 1), time = Some (9, 45, 0), booking_id = [quote] @ ''B002'' @ [quote],
       booking_status = ''Cancelled'', customer_id = [quote] @ ''C002'' @ [quote],
       vehicle_type = ''SUV'', payment_method = Some ''Cash''\<rparr>,
      \<lparr>date = Some (2025, 9, 2), time = Some (8, 30, 0), booking_id = [quote] @ ''B003'' @ [quote],
       booking_status = ''Completed'', customer_id = [quote] @ ''C001'' @ [quote],
       vehicle_type = ''Sedan'', payment_method = Some ''Card''\<rparr>,
      \<lparr>date = Some (2025, 9, 3), time = Some (20, 0, 0), booking_id = [quote] @ ''B004'' @ [quote],
       booking_status = ''Completed'', customer_id = [quote] @ ''C003'' @ [quote],
       vehicle_type = ''Bike'', payment_method = None\<rparr>]"

definition sample_table :: "booking list" where
  "sample_table = normalize_dataframe sample_rows"


text \<open>
  Two customers with one booking each, and two orders an engine may give to customers with
  equal counts: as first seen, and with customer C003 first.
\<close>

definition tied_rows :: "booking list" where
  "tied_rows =
     [\<lparr>date = Some (2025, 9, 2), time = Some (8, 15, 0), booking_id = [quote] @ ''B001'' @ [quote],
       booking_status = ''Completed'', customer_id = [quote] @ ''C001'' @ [quote],
       vehicle_type = ''Sedan'', payment_method = Some ''Card''\<rparr>,
      \<lparr>date = Some (2025, 9, 3), time = Some (20, 0, 0), booking_id = [quote] @ ''B004'' @ [quote],
       booking_status = ''Completed'', customer_id = [quote] @ ''C003'' @ [quote],
       vehicle_type = ''Bike'', payment_method = Some ''Cash''\<rparr>]"

definition first_seen :: "TopCustomer \<Rightarrow> nat" where
  "first_seen t = 0"

definition C003_first :: "TopCustomer \<Rightarrow> nat" where
  "C003_first t = (if fst t = ''C003'' then 0 else 1)"

text \<open>A file whose rows are not in date order.\<close>

definition unordered_rows :: "booking list" where
  "unordered_rows =
     [\<lparr>date = Some (2025, 9, 3), time = Some (20, 0, 0), booking_id = [quote] @ ''B004'' @ [quote],
       booking_status = ''Completed'', customer_id = [quote] @ ''C003'' @ [quote],
       vehicle_type = ''Bike'', payment_method = None\<rparr>,
      \<lparr>date = Some (2025, 9, 2), time = Some (8, 15, 0), booking_id = [quote] @ ''B001'' @ [quote],
       booking_status = ''Completed'', customer_id = [quote] @ ''C001'' @ [quote],
       vehicle_type = ''Sedan'', payment_method = Some ''Card''\<rparr>]"

text \<open>An identifier as the file stores it: wrapped in one pair of quotes, no other quote in it.\<close>

definition wrapped_once :: "string \<Rightarrow> bool" where
  "wrapped_once s =
     (2 \<le> length s \<and> hd s = quote \<and> last s = quote \<and> quote \<notin> set (butlast (tl s)))"

text \<open>
  The conjunction of the equality predicates of the filters that are set (a filter that is
  absent or the empty string is not set). \<open>wrap\<close> is what the variant does to the customer
  identifier before comparing it with the stored one.
\<close>

definition listing_filter ::
  "(string \<Rightarrow> string) \<Rightarrow> string option \<Rightarrow> string option \<Rightarrow> string option \<Rightarrow> booking \<Rightarrow> bool" where
  "listing_filter wrap status vt cid r =
     ((case status of None \<Rightarrow> True | Some s \<Rightarrow> s \<noteq> [] \<longrightarrow> booking_status r = s) \<and>
      (case vt of None \<Rightarrow> True | Some v \<Rightarrow> v \<noteq> [] \<longrightarrow> vehicle_type r = v) \<and>
      (case cid of None \<Rightarrow> True | Some c \<Rightarrow> c \<noteq> [] \<longrightarrow> customer_id r = wrap c))"

text \<open>
  What it is for an aggregate to report the groups of a record set: every key among \<open>keys\<close> has
  one row, no row has another key, and the row of key \<open>k\<close> carries \<open>count k\<close>. Under a limit
  \<open>n\<close> the rows are \<open>n\<close> of the groups (all of them if there are fewer), and no group left out
  has a larger count than a group reported.
\<close>

definition reports_groups :: "('k \<times> nat) list \<Rightarrow> 'k set \<Rightarrow> ('k \<Rightarrow> nat) \<Rightarrow> bool" where
  "reports_groups rows keys count =
     (distinct (map fst rows) \<and> set rows = (\<lambda>k. (k, count k)) ` keys)"


section \<open>Properties of the query operations\<close>

declare show_nat.simps [simp del]

lemma COUNT_DISTINCT_card: "COUNT_DISTINCT (map f xs) = card (f ` set xs)"
  by (simp add: COUNT_DISTINCT_def length_remdups_card_conv)

lemma set_distinct_keys [simp]: "set (distinct_keys ks) = set ks"
  by (simp add: distinct_keys_def)

lemma distinct_distinct_keys [simp]: "distinct (distinct_keys ks)"
  by (simp add: distinct_keys_def)

lemma length_distinct_keys: "length (distinct_keys ks) = card (set ks)"
  using distinct_card [of "distinct_keys ks"] by simp

lemma set_ORDER_BY [simp]: "set (ORDER_BY f xs) = set xs"
  by (simp add: ORDER_BY_def)

lemma set_ORDER_BY_DESC [simp]: "set (ORDER_BY_DESC f xs) = set xs"
  by (simp add: ORDER_BY_DESC_def)

lemma set_ORDER_BY_DESC_ties [simp]: "set (ORDER_BY_DESC_ties f ties xs) = set xs"
  by (simp add: ORDER_BY_DESC_ties_def)

lemma set_LIMIT: "set (LIMIT n xs) \<subseteq> set xs"
  by (simp add: LIMIT_def set_take_subset)

lemma distinct_map_insort_key:
  "distinct (map g (insort_key f x xs)) = distinct (map g (x # xs))"
  by (induction xs) (auto simp: set_insort_key)

lemma distinct_map_sort_key: "distinct (map g (sort_key f xs)) = distinct (map g xs)"
  by (induction xs) (simp_all add: distinct_map_insort_key)

lemma validate_rows_Inr: "validate_rows f xs = Inr ys \<Longrightarrow> map f xs = map Some ys"
  by (induction xs arbitrary: ys) (auto split: option.splits sum.splits)

lemma validate_rows_total:
  "\<forall>x \<in> set xs. f x \<noteq> None \<Longrightarrow> validate_rows f xs = Inr (map (\<lambda>x. the (f x)) xs)"
  by (induction xs) (auto split: option.splits sum.splits)

lemma SELECT_COUNT_DISTINCT_iff:
  "(k, n) \<in> set (SELECT_COUNT_DISTINCT key ident rows) \<longleftrightarrow>
     k \<in> key ` set rows \<and> n = card (ident ` {r \<in> set rows. key r = k})"
  by (auto simp: SELECT_COUNT_DISTINCT_def GROUP_BY_def COUNT_DISTINCT_card)

lemma map_fst_SELECT_COUNT_DISTINCT:
  "map fst (SELECT_COUNT_DISTINCT key ident rows) = distinct_keys (map key rows)"
  by (simp add: SELECT_COUNT_DISTINCT_def GROUP_BY_def comp_def)

lemma set_SELECT_COUNT_DISTINCT:
  "set (SELECT_COUNT_DISTINCT key ident rows)
     = (\<lambda>k. (k, card (ident ` {r \<in> set rows. key r = k}))) ` key ` set rows"
  by (auto simp: SELECT_COUNT_DISTINCT_iff)

lemma SELECT_COUNT_DISTINCT_reports:
  "reports_groups (SELECT_COUNT_DISTINCT key ident rows) (key ` set rows)
     (\<lambda>k. card (ident ` {r \<in> set rows. key r = k}))"
  by (simp add: reports_groups_def map_fst_SELECT_COUNT_DISTINCT set_SELECT_COUNT_DISTINCT)

lemma reports_groups_permuted:
  assumes "reports_groups xs keys count" and "set ys = set xs"
    and "distinct (map fst ys) = distinct (map fst xs)"
  shows "reports_groups ys keys count"
  using assms by (simp add: reports_groups_def)


lemma reports_groups_ORDER_BY_DESC:
  "reports_groups xs keys count \<Longrightarrow> reports_groups (ORDER_BY_DESC f xs) keys count"
  by (erule reports_groups_permuted) (simp_all add: ORDER_BY_DESC_def distinct_map_sort_key)

lemma reports_groups_cong:
  assumes "reports_groups xs keys count" and "keys = keys'"
    and "\<And>k. k \<in> keys' \<Longrightarrow> count k = count' k"
  shows "reports_groups xs keys' count'"
  using assms by (auto simp: reports_groups_def)


lemma ORDER_BY_DESC_ties_sorted: "sorted_wrt (\<lambda>a b. f b \<le> f a) (ORDER_BY_DESC_ties f ties xs)"
proof -
  have "sorted (map (\<lambda>x. (- int (f x), ties x)) (sort_key (\<lambda>x. (- int (f x), ties x)) xs))"
    by (rule sorted_sort_key)
  then have "sorted_wrt (\<lambda>a b. (- int (f a), ties a) \<le> (- int (f b), ties b))
      (ORDER_BY_DESC_ties f ties xs)"
    by (simp add: sorted_map ORDER_BY_DESC_ties_def)
  then show ?thesis
    by (rule sorted_wrt_mono_rel [rotated]) (auto simp: less_eq_prod_def)
qed

lemma LIMIT_sorted: "sorted_wrt P xs \<Longrightarrow> sorted_wrt P (LIMIT n xs)"
  by (simp add: LIMIT_def sorted_wrt_take)

lemma length_LIMIT: "length (LIMIT n xs) \<le> n"
  by (simp add: LIMIT_def)

lemma LIMIT_one_member: "t \<in> set (LIMIT 1 xs) \<Longrightarrow> xs \<noteq> [] \<and> t = hd xs"
  by (cases xs) (simp_all add: LIMIT_def)

lemma hd_LIMIT: "0 < n \<Longrightarrow> xs \<noteq> [] \<Longrightarrow> LIMIT n xs \<noteq> [] \<and> hd (LIMIT n xs) = hd xs"
  by (cases xs; cases n) (simp_all add: LIMIT_def)

lemma sorted_desc_hd_max:
  fixes f :: "'a \<Rightarrow> nat"
  assumes "sorted_wrt (\<lambda>a b. f b \<le> f a) xs" and "x \<in> set xs"
  shows "f x \<le> f (hd xs)"
  using assms by (cases xs) auto




text \<open>
  Every descending order of rows is the result of \<open>ORDER_BY_DESC_ties\<close> for some \<open>ties\<close>: the
  position of a row in that order.
\<close>

lemma position_nth:
  assumes "distinct ys" and "i < length ys"
  shows "length (takeWhile (\<lambda>y. y \<noteq> ys ! i) ys) = i"
proof -
  let ?n = "length (takeWhile (\<lambda>y. y \<noteq> ys ! i) ys)"
  from assms(2) have "ys ! i \<in> set ys" by simp
  then have "takeWhile (\<lambda>y. y \<noteq> ys ! i) ys \<noteq> ys" by (auto simp: takeWhile_eq_all_conv)
  moreover have "takeWhile (\<lambda>y. y \<noteq> ys ! i) ys = take ?n ys" by (rule takeWhile_eq_take)
  ultimately have "?n \<noteq> length ys" by auto
  with length_takeWhile_le [of "\<lambda>y. y \<noteq> ys ! i" ys] have n: "?n < length ys" by simp
  from nth_length_takeWhile [OF n] have "ys ! ?n = ys ! i" by simp
  with assms n show ?thesis by (simp add: nth_eq_iff_index_eq)
qed

lemma ORDER_BY_DESC_ties_any:
  fixes f :: "'a \<Rightarrow> nat"
  assumes dx: "distinct xs" and dy: "distinct ys" and set: "set ys = set xs"
    and sorted: "sorted_wrt (\<lambda>a b. f b \<le> f a) ys"
  shows "\<exists>ties. ORDER_BY_DESC_ties f ties xs = ys"
proof
  let ?t = "\<lambda>x. length (takeWhile (\<lambda>y. y \<noteq> x) ys)"
  let ?k = "\<lambda>x. (- int (f x), ?t x)"
  have t: "?t (ys ! i) = i" if "i < length ys" for i
    using dy that by (rule position_nth)
  have inj: "inj_on ?k (set ys)"
  proof (rule inj_onI)
    fix x y assume "x \<in> set ys" "y \<in> set ys" and e: "?k x = ?k y"
    then obtain i j where "i < length ys" "x = ys ! i" "j < length ys" "y = ys ! j"
      by (auto simp: in_set_conv_nth)
    with e t show "x = y" by simp
  qed
  have "sorted_wrt (\<lambda>a b. ?k a \<le> ?k b) ys"
    unfolding sorted_wrt_iff_nth_less
  proof (intro allI impI)
    fix i j assume ij: "i < j" "j < length ys"
    with sorted have "f (ys ! j) \<le> f (ys ! i)" by (simp add: sorted_wrt_iff_nth_less)
    moreover from ij t have "?t (ys ! i) = i" "?t (ys ! j) = j" by simp_all
    ultimately show "?k (ys ! i) \<le> ?k (ys ! j)" using ij by auto
  qed
  then have s: "sorted (map ?k ys)" by (simp add: sorted_map)
  from inj dy have d: "distinct (map ?k ys)" by (simp add: distinct_map)
  from inj dx set have d': "distinct (map ?k (sort_key ?k xs))" by (simp add: distinct_map)
  have "map ?k (sort_key ?k xs) = map ?k ys"
    by (rule sorted_distinct_set_unique [OF sorted_sort_key d' s d]) (simp add: set)
  moreover from inj set have "inj_on ?k (set (sort_key ?k xs) \<union> set ys)" by simp
  ultimately have "sort_key ?k xs = ys" by (simp add: inj_on_map_eq_map)
  then show "ORDER_BY_DESC_ties f ?t xs = ys" by (simp add: ORDER_BY_DESC_ties_def)
qed

lemma reports_groups_reindex:
  assumes r: "reports_groups xs K cnt" and i: "inj_on h K"
    and c: "\<And>k. k \<in> K \<Longrightarrow> cnt k = cnt' (h k)"
  shows "reports_groups (map (\<lambda>(k, n). (h k, n)) xs) (h ` K) cnt'"
proof -
  from r have d: "distinct (map fst xs)" and e: "set xs = (\<lambda>k. (k, cnt k)) ` K"
    by (simp_all add: reports_groups_def)
  from e have k: "set (map fst xs) = K" by (simp add: image_image)
  have m: "map fst (map (\<lambda>(k, n). (h k, n)) xs) = map h (map fst xs)"
    by (simp add: case_prod_beta comp_def)
  have "distinct (map h (map fst xs))"
    using d i k by (simp only: distinct_map)
  moreover have "set (map (\<lambda>(k, n). (h k, n)) xs) = (\<lambda>j. (j, cnt' j)) ` h ` K"
    using c by (simp add: e image_image)
  ultimately show ?thesis by (simp only: reports_groups_def m)
qed






lemma validated_rows:
  assumes "validate_rows (\<lambda>((a, b), n). map_option (\<lambda>s. (a, s, n)) b) xs = Inr ys"
  shows "xs = map (\<lambda>(a, s, n). ((a, Some s), n)) ys"
  using assms
  by (induction xs arbitrary: ys) (auto split: option.splits sum.splits prod.splits)

lemma validated_mem:
  assumes "validate_rows (\<lambda>((a, b), n). map_option (\<lambda>s. (a, s, n)) b) xs = Inr ys"
    and "(a, s, n) \<in> set ys"
  shows "((a, Some s), n) \<in> set xs"
  using assms(2) unfolding validated_rows [OF assms(1)] by force


text \<open>The customer ranked first, and the payment methods of that customer's rows.\<close>

lemma first_ranked:
  fixes key :: "'r \<Rightarrow> 'k" and ident :: "'r \<Rightarrow> 'i" and ties :: "'k \<times> nat \<Rightarrow> nat"
    and rows :: "'r list"
  assumes "rows \<noteq> []"
  defines "X \<equiv> ORDER_BY_DESC_ties snd ties (SELECT_COUNT_DISTINCT key ident rows)"
  shows "\<exists>c m. LIMIT 1 X = [(c, m)] \<and> X \<noteq> [] \<and> hd X = (c, m) \<and> c \<in> key ` set rows \<and>
           m = card (ident ` {r \<in> set rows. key r = c}) \<and>
           (\<forall>c' \<in> key ` set rows. card (ident ` {r \<in> set rows. key r = c'}) \<le> m)"
proof -
  have s: "set X = (\<lambda>k. (k, card (ident ` {r \<in> set rows. key r = k}))) ` key ` set rows"
    by (simp add: X_def set_SELECT_COUNT_DISTINCT)
  from assms(1) have "set X \<noteq> {}" by (simp add: s)
  then have ne: "X \<noteq> []" by auto
  then have l: "LIMIT 1 X = [hd X]" by (cases X) (simp_all add: LIMIT_def)
  obtain c m where cm: "hd X = (c, m)" by (cases "hd X")
  from ne have "hd X \<in> set X" by simp
  with cm s have c: "c \<in> key ` set rows" "m = card (ident ` {r \<in> set rows. key r = c})"
    by auto
  have sorted: "sorted_wrt (\<lambda>a b. snd b \<le> snd a) X"
    unfolding X_def by (rule ORDER_BY_DESC_ties_sorted)
  have "\<forall>c' \<in> key ` set rows. card (ident ` {r \<in> set rows. key r = c'}) \<le> m"
  proof
    fix c' assume "c' \<in> key ` set rows"
    then have "(c', card (ident ` {r \<in> set rows. key r = c'})) \<in> set X" by (simp add: s)
    from sorted_desc_hd_max [OF sorted this] cm
    show "card (ident ` {r \<in> set rows. key r = c'}) \<le> m" by simp
  qed
  with l cm c ne show ?thesis by simp
qed

lemma join_reports:
  fixes c :: string and rows :: "booking list" and m :: nat
  defines "J \<equiv> \<lambda>cid. [(v, t). v \<leftarrow> rows, t \<leftarrow> [(c, m)], cid v = fst t]"
  shows "reports_groups
     (SELECT_COUNT_DISTINCT (\<lambda>(v, t). (fst t, payment_method v)) (\<lambda>(v, t). ident v) (J cid))
     ((\<lambda>pm. (c, pm)) ` payment_method ` {r \<in> set rows. cid r = c})
     (\<lambda>k. card (ident ` {r \<in> set rows. cid r = c \<and> payment_method r = snd k}))"
proof (rule reports_groups_cong [OF SELECT_COUNT_DISTINCT_reports])
  have j: "set (J cid) = (\<lambda>v. (v, (c, m))) ` {r \<in> set rows. cid r = c}"
    by (auto simp: J_def)
  show "(\<lambda>(v, t). (fst t, payment_method v)) ` set (J cid)
      = (\<lambda>pm. (c, pm)) ` payment_method ` {r \<in> set rows. cid r = c}"
    by (simp add: j image_image)
  fix k assume "k \<in> (\<lambda>pm. (c, pm)) ` payment_method ` {r \<in> set rows. cid r = c}"
  then have k: "fst k = c" by auto
  have "(\<lambda>(v, t). ident v) ` {x \<in> set (J cid). (case x of (v, t) \<Rightarrow> (fst t, payment_method v)) = k}
      = ident ` {r \<in> set rows. cid r = c \<and> payment_method r = snd k}" (is "?L = ?R")
  proof (intro equalityI subsetI)
    fix y assume "y \<in> ?L"
    then obtain v where "v \<in> set rows" "cid v = c" "(c, payment_method v) = k" "y = ident v"
      by (auto simp: j)
    then show "y \<in> ?R" by auto
  next
    fix y assume "y \<in> ?R"
    then obtain r where r: "r \<in> set rows" "cid r = c" "payment_method r = snd k" "y = ident r"
      by auto
    with k have "(r, (c, m)) \<in> {x \<in> set (J cid). (case x of (v, t) \<Rightarrow> (fst t, payment_method v)) = k}"
      by (cases k) (simp add: j)
    then have "(\<lambda>(v, t). ident v) (r, (c, m)) \<in> ?L" by (rule imageI)
    with r(4) show "y \<in> ?L" by simp
  qed
  then show "card ((\<lambda>(v, t). ident v) ` {r \<in> set (J cid). (case r of (v, t) \<Rightarrow> (fst t, payment_method v)) = k})
      = card (ident ` {r \<in> set rows. cid r = c \<and> payment_method r = snd k})"
    by simp
qed

lemma payment_methods_reports:
  fixes c :: string and rows :: "booking list" and m :: nat
  defines "X \<equiv> \<lambda>cid ident. ORDER_BY_DESC snd
     (SELECT_COUNT_DISTINCT (\<lambda>(v, t). (fst t, payment_method v)) (\<lambda>(v, t). ident v)
        [(v, t). v \<leftarrow> rows, t \<leftarrow> [(c, m)], cid v = fst t])"
  assumes v: "validate_rows (\<lambda>((a, b), n). map_option (\<lambda>s. (a, s, n)) b) (X cid ident) = Inr res"
  shows "reports_groups (map (\<lambda>(a, s, n). (s, n)) res)
       {p. Some p \<in> payment_method ` {r \<in> set rows. cid r = c}}
       (\<lambda>p. card (ident ` {r \<in> set rows. cid r = c \<and> payment_method r = Some p})) \<and>
     list_all (\<lambda>(a, s, n). a = c) res"
proof -
  let ?PM = "payment_method ` {r \<in> set rows. cid r = c}"
  let ?K = "(\<lambda>pm. (c, pm)) ` ?PM"
  have r: "reports_groups (X cid ident) ?K
      (\<lambda>k. card (ident ` {r \<in> set rows. cid r = c \<and> payment_method r = snd k}))"
    unfolding X_def by (rule reports_groups_ORDER_BY_DESC) (rule join_reports)
  from v have x: "X cid ident = map (\<lambda>(a, s, n). ((a, Some s), n)) res"
    by (rule validated_rows)
  from r have "fst ` set (X cid ident) = ?K"
    by (simp add: reports_groups_def image_image)
  then have k: "?K = (\<lambda>(a, s, n). (a, Some s)) ` set res"
    unfolding x by (simp add: image_image case_prod_beta)
  have some: "\<forall>pm \<in> ?PM. pm \<noteq> None"
  proof
    fix pm assume "pm \<in> ?PM"
    then have "(c, pm) \<in> ?K" by (rule imageI)
    then have "(c, pm) \<in> (\<lambda>(a, s, n). (a, Some s)) ` set res" by (simp only: k)
    then show "pm \<noteq> None" by auto
  qed
  let ?h = "\<lambda>k :: string \<times> string option. the (snd k)"
  have i: "inj_on ?h ?K"
  proof (rule inj_onI)
    fix x y assume x: "x \<in> ?K" and y: "y \<in> ?K" and e: "?h x = ?h y"
    from x some have "fst x = c" "snd x = Some (the (snd x))" by auto
    moreover from y some have "fst y = c" "snd y = Some (the (snd y))" by auto
    ultimately show "x = y" using e by (simp add: prod_eq_iff)
  qed
  have "reports_groups (map (\<lambda>(k, n). (?h k, n)) (X cid ident)) (?h ` ?K)
      (\<lambda>p. card (ident ` {r \<in> set rows. cid r = c \<and> payment_method r = Some p}))"
  proof (rule reports_groups_reindex [OF r i])
    fix k assume "k \<in> ?K"
    with some have "snd k = Some (the (snd k))" by auto
    then show "card (ident ` {r \<in> set rows. cid r = c \<and> payment_method r = snd k})
        = card (ident ` {r \<in> set rows. cid r = c \<and> payment_method r = Some (the (snd k))})"
      by simp
  qed
  moreover have "map (\<lambda>(k, n). (?h k, n)) (X cid ident) = map (\<lambda>(a, s, n). (s, n)) res"
    unfolding x by (simp add: case_prod_beta comp_def)
  moreover have "?h ` ?K = {p. Some p \<in> ?PM}" (is "?L = ?R")
  proof (intro equalityI subsetI)
    fix p assume "p \<in> ?L"
    then obtain k where k1: "k \<in> ?K" and p: "p = ?h k" by (rule imageE)
    from k1 obtain pm where pm: "pm \<in> ?PM" and k2: "k = (c, pm)" by (rule imageE)
    from pm some have "pm = Some (the pm)" by auto
    with p k2 pm have "Some p \<in> ?PM" by simp
    then show "p \<in> ?R" by simp
  next
    fix p assume "p \<in> ?R"
    then have "(c, Some p) \<in> ?K" by simp
    then have "?h (c, Some p) \<in> ?L" by (rule imageI)
    then show "p \<in> ?L" by simp
  qed
  ultimately have rep: "reports_groups (map (\<lambda>(a, s, n). (s, n)) res) {p. Some p \<in> ?PM}
      (\<lambda>p. card (ident ` {r \<in> set rows. cid r = c \<and> payment_method r = Some p}))"
    by simp
  have "list_all (\<lambda>(a, s, n). a = c) res"
  proof (simp only: list_all_iff, rule ballI)
    fix y assume "y \<in> set res"
    then have "(\<lambda>(a, s, n). (a, Some s)) y \<in> ?K" unfolding k by (rule imageI)
    then show "case y of (a, s, n) \<Rightarrow> a = c" by (cases y) auto
  qed
  with rep show ?thesis by simp
qed

lemma payment_methods_validate_customer:
  fixes c :: string and rows :: "booking list" and m :: nat
  defines "X \<equiv> \<lambda>cid ident. ORDER_BY_DESC snd
     (SELECT_COUNT_DISTINCT (\<lambda>(v, t). (fst t, payment_method v)) (\<lambda>(v, t). ident v)
        [(v, t). v \<leftarrow> rows, t \<leftarrow> [(c, m)], cid v = fst t])"
  assumes n: "\<forall>r \<in> set rows. cid r = c \<longrightarrow> payment_method r \<noteq> None" and e: "c \<in> cid ` set rows"
  shows "\<exists>res. validate_rows (\<lambda>((a, b), n). map_option (\<lambda>s. (a, s, n)) b) (X cid ident) = Inr res \<and>
           res \<noteq> []"
proof -
  let ?f = "\<lambda>((a, b), n). map_option (\<lambda>s. (a, s, n)) b"
  let ?K = "(\<lambda>pm. (c, pm)) ` payment_method ` {r \<in> set rows. cid r = c}"
  have r: "reports_groups (X cid ident) ?K
      (\<lambda>k. card (ident ` {r \<in> set rows. cid r = c \<and> payment_method r = snd k}))"
    unfolding X_def by (rule reports_groups_ORDER_BY_DESC) (rule join_reports)
  then have f: "fst ` set (X cid ident) = ?K"
    by (simp add: reports_groups_def image_image)
  have "\<forall>x \<in> set (X cid ident). ?f x \<noteq> None"
  proof
    fix x assume "x \<in> set (X cid ident)"
    then have "fst x \<in> ?K" using f by blast
    then obtain r where "r \<in> set rows" "cid r = c" "fst x = (c, payment_method r)" by auto
    with n show "?f x \<noteq> None" by (cases x) auto
  qed
  then obtain res where res: "validate_rows ?f (X cid ident) = Inr res"
    using validate_rows_total by blast
  from e have "?K \<noteq> {}" by auto
  with f have "X cid ident \<noteq> []" by auto
  with validated_rows [OF res] have "res \<noteq> []" by auto
  with res show ?thesis by blast
qed




















lemma agg_count_all:
  assumes "(k, n) \<in> set (SELECT_COUNT_DISTINCT key ident rows)"
  shows "n = card (ident ` {r \<in> set rows. key r = k})"
  using assms by (simp add: SELECT_COUNT_DISTINCT_iff)

lemma status_count: "(k, n) \<in> set (get_booking_status_breakdown csv) \<Longrightarrow>
   n = spec_distinct_bookings {r \<in> set csv. booking_status r = k}"
  by (simp add: get_booking_status_breakdown_def spec_distinct_bookings_def agg_count_all)

subsection \<open>Quote characters\<close>

lemma REPLACE_single: "REPLACE s [q] [] = filter (\<lambda>c. c \<noteq> q) s"
  by (induction s) auto

lemma strip_quotes_filter: "strip_quotes s = filter (\<lambda>c. c \<noteq> quote) s"
  by (simp add: strip_quotes_def REPLACE_single)

lemma strip_quotes_wrapped: "quote \<notin> set x \<Longrightarrow> strip_quotes ([quote] @ x @ [quote]) = x"
  by (auto simp: strip_quotes_filter filter_id_conv)

lemma strip_one_pair_wrapped: "strip_one_pair (quote # x @ [quote]) = x"
  by (simp add: strip_one_pair_def)

lemma wrapped_once_iff: "wrapped_once s \<longleftrightarrow> (\<exists>x. s = quote # x @ [quote] \<and> quote \<notin> set x)"
proof
  assume w: "wrapped_once s"
  then obtain c cs where s: "s = c # cs" "cs \<noteq> []"
    by (cases s; cases "tl s") (auto simp: wrapped_once_def)
  with w have c: "c = quote" "last cs = quote" and b: "quote \<notin> set (butlast cs)"
    by (auto simp: wrapped_once_def)
  from s c append_butlast_last_id [of cs] have "s = quote # butlast cs @ [quote]"
    by simp
  with b show "\<exists>x. s = quote # x @ [quote] \<and> quote \<notin> set x" by blast
next
  assume "\<exists>x. s = quote # x @ [quote] \<and> quote \<notin> set x"
  then show "wrapped_once s" by (auto simp: wrapped_once_def)
qed



subsection \<open>Operations on no rows\<close>

lemma SELECT_COUNT_DISTINCT_Nil [simp]: "SELECT_COUNT_DISTINCT key ident [] = []"
  by (simp add: SELECT_COUNT_DISTINCT_def GROUP_BY_def distinct_keys_def)

lemma ORDER_BY_Nil [simp]: "ORDER_BY f [] = []"
  by (simp add: ORDER_BY_def)

lemma ORDER_BY_DESC_Nil [simp]: "ORDER_BY_DESC f [] = []"
  by (simp add: ORDER_BY_DESC_def)

lemma ORDER_BY_DESC_ties_Nil [simp]: "ORDER_BY_DESC_ties f ties [] = []"
  by (simp add: ORDER_BY_DESC_ties_def)

lemma LIMIT_Nil [simp]: "LIMIT n [] = []"
  by (simp add: LIMIT_def)

lemma GROUP_BY_Nil [simp]: "GROUP_BY key [] = []"
  by (simp add: GROUP_BY_def distinct_keys_def)

subsection \<open>Evaluation on the example data\<close>

lemmas eval_defs = duplicated_rows_def normalize_dataframe_def
  get_booking_status_breakdown_def get_bookings_per_hour_def
      get_bookings_per_weekday_def get_bookings_per_month_def
      get_peak_hours_def get_vehicle_type_stats_def get_payment_method_stats_def
      get_top_customers_def get_top_customer_payment_methods_def top_customer_def
      db_get_booking_status_breakdown_def db_get_bookings_per_hour_def
      db_get_bookings_per_weekday_def db_get_bookings_per_month_def
      db_get_peak_hours_def db_get_vehicle_type_stats_def db_get_payment_method_stats_def
      db_get_top_customers_def db_get_top_customer_payment_methods_def db_top_customer_def
      SELECT_COUNT_DISTINCT_def GROUP_BY_def distinct_keys_def COUNT_DISTINCT_def
      ORDER_BY_def ORDER_BY_DESC_def ORDER_BY_DESC_ties_def LIMIT_def strip_quotes_def quote_def
      EXTRACT_hour_def typed_column_def first_seen_def




lemma sample_rows_load: "loaded_table sample_rows = sample_table"
  by (simp add: loaded_table_def upsert_rows_def on_conflict_do_nothing_def fits_schema_def
        sample_table_def sample_rows_def normalize_dataframe_def quote_def)


lemma duplicated_rows_results:
  "get_booking_status_breakdown duplicated_rows = [(''Completed'', 1)]"
  "get_bookings_per_hour duplicated_rows = Inr [(8, 1)]"
  "get_peak_hours 5 duplicated_rows = Inr [(8, 1)]"
  "get_vehicle_type_stats duplicated_rows = [(''Sedan'', 1, 1)]"
  "get_payment_method_stats duplicated_rows = [(''Card'', 1)]"
  "get_top_customers first_seen 5 duplicated_rows = Inr [(''C001'', 1)]"
  "get_top_customer_payment_methods first_seen duplicated_rows = Inr [(''C001'', ''Card'', 1)]"
  by (simp_all add: eval_defs)




section \<open>Distinct-booking counts of the aggregates\<close>











section \<open>The empty record set\<close>

lemmas aggregate_defs = get_booking_status_breakdown_def get_bookings_per_hour_def
      get_bookings_per_weekday_def get_bookings_per_month_def GET_peak_hours_def
      get_peak_hours_def get_vehicle_type_stats_def get_payment_method_stats_def
      GET_top_customers_def get_top_customers_def get_top_customer_payment_methods_def
      top_customer_def
      db_get_booking_status_breakdown_def db_get_bookings_per_hour_def
      db_get_bookings_per_weekday_def db_get_bookings_per_month_def db_GET_peak_hours_def
      db_get_peak_hours_def db_get_vehicle_type_stats_def db_get_payment_method_stats_def
      db_GET_top_customers_def db_get_top_customers_def db_get_top_customer_payment_methods_def
      db_top_customer_def

text \<open>
  C9. On a file without data rows the four file-backed aggregates over the hour, the weekday
  and the month of a booking (bookings per hour, per weekday, per month, and peak hours) fail
  with the error of the engine: the columns they apply \<open>EXTRACT\<close> and \<open>strftime\<close> to are read
  as text. The other file-backed aggregates, and every store-backed aggregate on the empty
  table, return the empty list.
\<close>

theorem empty_file_aggregates_fail:
  "get_bookings_per_hour [] = Inl EngineError \<and>
   get_bookings_per_weekday [] = Inl EngineError \<and>
   get_bookings_per_month [] = Inl EngineError \<and>
   GET_peak_hours None [] = Inl EngineError \<and>
   GET_peak_hours (Some 24) [] = Inl EngineError \<and>
   get_booking_status_breakdown [] = [] \<and>
   get_vehicle_type_stats [] = [] \<and>
   get_payment_method_stats [] = [] \<and>
   GET_top_customers ties None [] = Inr [] \<and>
   GET_top_customers ties (Some 100) [] = Inr [] \<and>
   get_top_customer_payment_methods ties [] = Inr [] \<and>
   db_get_booking_status_breakdown [] = [] \<and>
   db_get_bookings_per_hour [] = [] \<and>
   db_get_bookings_per_weekday [] = Inr [] \<and>
   db_get_bookings_per_month [] = [] \<and>
   db_GET_peak_hours None [] = Inr [] \<and>
   db_GET_peak_hours (Some 24) [] = Inr [] \<and>
   db_get_vehicle_type_stats [] = [] \<and>
   db_get_payment_method_stats [] = [] \<and>
   db_GET_top_customers ties None [] = Inr [] \<and>
   db_GET_top_customers ties (Some 100) [] = Inr [] \<and>
   db_get_top_customer_payment_methods ties [] = Inr []"
  by (simp add: aggregate_defs Query_def typed_column_def)

section \<open>Bounds of the limit parameters\<close>

text \<open>
  C6. A limit outside its declared bounds (1 to 24 for peak hours, 1 to 100 for top customers,
  1 to 1000 for the listing) is rejected by the route, whatever the data, and the handler is not
  run; a limit within the bounds reaches the handler unchanged; an omitted limit is 5, 10 and
  100 respectively.
\<close>

theorem limit_bounds_enforced:
  "(l < 1 \<or> 24 < l \<longrightarrow>
      GET_peak_hours (Some l) csv = Inl RequestValidationError \<and>
      db_GET_peak_hours (Some l) tbl = Inl RequestValidationError) \<and>
   (l < 1 \<or> 100 < l \<longrightarrow>
      GET_top_customers ties (Some l) csv = Inl RequestValidationError \<and>
      db_GET_top_customers ties (Some l) tbl = Inl RequestValidationError) \<and>
   (l < 1 \<or> 1000 < l \<longrightarrow>
      GET_bookings (Some l) status vt cid df_cache = (Inl RequestValidationError, df_cache) \<and>
      db_GET_bookings (Some l) status vt cid tbl = Inl RequestValidationError) \<and>
   (1 \<le> k \<and> k \<le> 24 \<longrightarrow>
      GET_peak_hours (Some k) csv = get_peak_hours k csv \<and>
      db_GET_peak_hours (Some k) tbl = db_get_peak_hours k tbl) \<and>
   (1 \<le> k \<and> k \<le> 100 \<longrightarrow>
      GET_top_customers ties (Some k) csv = get_top_customers ties k csv \<and>
      db_GET_top_customers ties (Some k) tbl = db_get_top_customers ties k tbl) \<and>
   (1 \<le> k \<and> k \<le> 1000 \<longrightarrow>
      GET_bookings (Some k) status vt cid df_cache = get_bookings k status vt cid df_cache \<and>
      db_GET_bookings (Some k) status vt cid tbl = db_get_bookings k status vt cid tbl) \<and>
   GET_peak_hours None csv = get_peak_hours 5 csv \<and>
   db_GET_peak_hours None tbl = db_get_peak_hours 5 tbl \<and>
   GET_top_customers ties None csv = get_top_customers ties 10 csv \<and>
   db_GET_top_customers ties None tbl = db_get_top_customers ties 10 tbl \<and>
   GET_bookings None status vt cid df_cache = get_bookings 100 status vt cid df_cache \<and>
   db_GET_bookings None status vt cid tbl = db_get_bookings 100 status vt cid tbl"
  by (simp add: GET_peak_hours_def db_GET_peak_hours_def GET_top_customers_def
        db_GET_top_customers_def GET_bookings_def db_GET_bookings_def Query_def)


theorem limit_bounds_enforced_witness:
  "GET_peak_hours (Some 0) duplicated_rows = Inl RequestValidationError \<and>
   GET_peak_hours (Some 25) duplicated_rows = Inl RequestValidationError \<and>
   db_GET_top_customers first_seen (Some 0) duplicated_table = Inl RequestValidationError \<and>
   db_GET_top_customers first_seen (Some 101) duplicated_table = Inl RequestValidationError \<and>
   GET_bookings (Some 0) None None None (Some duplicated_rows)
     = (Inl RequestValidationError, Some duplicated_rows) \<and>
   GET_bookings (Some 1001) None None None (Some duplicated_rows)
     = (Inl RequestValidationError, Some duplicated_rows) \<and>
   db_GET_bookings (Some 1001) None None None duplicated_table = Inl RequestValidationError \<and>
   GET_peak_hours (Some 24) duplicated_rows = get_peak_hours 24 duplicated_rows \<and>
   GET_top_customers first_seen (Some 24) duplicated_rows = get_top_customers first_seen 24 duplicated_rows \<and>
   GET_bookings (Some 24) None None None (Some duplicated_rows)
     = get_bookings 24 None None None (Some duplicated_rows)"
  using limit_bounds_enforced [of 0 duplicated_rows duplicated_table first_seen None None None
          "Some duplicated_rows" 24]
        limit_bounds_enforced [of 25 duplicated_rows duplicated_table first_seen None None None
          "Some duplicated_rows" 24]
        limit_bounds_enforced [of 101 duplicated_rows duplicated_table first_seen None None None
          "Some duplicated_rows" 24]
        limit_bounds_enforced [of 1001 duplicated_rows duplicated_table first_seen None None None
          "Some duplicated_rows" 24]
  by simp

section \<open>Listing and lookup before the cache is loaded\<close>

text \<open>
  C10. In the file-backed variant, while the cache is not loaded, the listing handler (for any
  arguments) and the lookup handler fail with HTTP 500 "Data not loaded" and leave the cache as
  it is; so does the listing route for an omitted limit and for every limit within bounds.
\<close>

theorem data_not_loaded:
  "get_bookings limit status vt cid None = (Inl (HTTPException 500 ''Data not loaded''), None) \<and>
   get_booking_by_id bid None = (Inl (HTTPException 500 ''Data not loaded''), None) \<and>
   GET_bookings None status vt cid None = (Inl (HTTPException 500 ''Data not loaded''), None) \<and>
   (1 \<le> l \<and> l \<le> 1000 \<longrightarrow>
      GET_bookings (Some l) status vt cid None
        = (Inl (HTTPException 500 ''Data not loaded''), None))"
  by (simp add: get_bookings_def get_booking_by_id_def GET_bookings_def Query_def)


theorem data_not_loaded_witness:
  "(1::int) \<le> 100 \<and> (100::int) \<le> 1000 \<and>
   GET_bookings (Some 100) (Some ''Completed'') None None None
     = (Inl (HTTPException 500 ''Data not loaded''), None)"
  using data_not_loaded [of _ "Some ''Completed''" None None _ 100] by simp


section \<open>Quote normalization\<close>

lemma normalize_dataframe_ids:
  "map booking_id (normalize_dataframe df) = map (\<lambda>r. strip_quotes (booking_id r)) df"
  "map customer_id (normalize_dataframe df) = map (\<lambda>r. strip_quotes (customer_id r)) df"
  by (simp_all add: normalize_dataframe_def strip_quotes_def)

text \<open>
  C5, as stated, fails: the normalization also removes an interior quote character, which
  stripping a single pair would keep.
\<close>

theorem normalization_counterexample:
  "strip_quotes ([quote] @ ''A'' @ [quote] @ ''B'' @ [quote]) = ''AB'' \<and>
   strip_one_pair ([quote] @ ''A'' @ [quote] @ ''B'' @ [quote]) = ''A'' @ [quote] @ ''B'' \<and>
   strip_quotes ([quote] @ ''A'' @ [quote] @ ''B'' @ [quote])
     \<noteq> strip_one_pair ([quote] @ ''A'' @ [quote] @ ''B'' @ [quote])"
  by (simp add: strip_quotes_def strip_one_pair_def quote_def)

text \<open>
  C5, amended. The normalization of the queries and of the load removes every quote character
  of the identifier and keeps all other characters in order; on an identifier wrapped in one
  pair of quotes and without any other quote character it is the removal of that pair.
\<close>

theorem normalization_removes_every_quote:
  "strip_quotes s = filter (\<lambda>c. c \<noteq> quote) s \<and>
   map booking_id (normalize_dataframe df) = map (\<lambda>r. filter (\<lambda>c. c \<noteq> quote) (booking_id r)) df \<and>
   map customer_id (normalize_dataframe df) = map (\<lambda>r. filter (\<lambda>c. c \<noteq> quote) (customer_id r)) df \<and>
   (quote \<notin> set x \<longrightarrow>
      strip_quotes ([quote] @ x @ [quote]) = x \<and>
      strip_quotes ([quote] @ x @ [quote]) = strip_one_pair ([quote] @ x @ [quote]))"
  using strip_quotes_wrapped [of x]
  by (simp add: normalize_dataframe_ids strip_quotes_filter strip_one_pair_wrapped)


theorem normalization_removes_every_quote_witness:
  "quote \<notin> set ''B001'' \<and> strip_quotes ([quote] @ ''B001'' @ [quote]) = ''B001'' \<and>
   strip_one_pair ([quote] @ ''B001'' @ [quote]) = ''B001''"
proof -
  have q: "quote \<notin> set ''B001''" by (simp add: quote_def)
  with normalization_removes_every_quote [of _ _ "''B001''"] show ?thesis
    by (simp add: strip_one_pair_def quote_def)
qed


section \<open>Sum of the per-status counts\<close>

lemma sum_list_insort_key:
  "sum_list (map g (insort_key f x xs)) = (g::'a \<Rightarrow> nat) x + sum_list (map g xs)"
  by (induction xs) auto

lemma sum_list_sort_key: "sum_list (map g (sort_key f xs)) = sum_list (map (g::'a \<Rightarrow> nat) xs)"
  by (induction xs) (auto simp: sum_list_insort_key)

lemma sum_SELECT_COUNT_DISTINCT:
  "sum_list (map snd (SELECT_COUNT_DISTINCT key ident rows))
     = (\<Sum>k \<in> key ` set rows. card (ident ` {r \<in> set rows. key r = k}))"
proof -
  have "map snd (SELECT_COUNT_DISTINCT key ident rows)
      = map (\<lambda>k. card (ident ` {r \<in> set rows. key r = k})) (distinct_keys (map key rows))"
    by (simp add: SELECT_COUNT_DISTINCT_def GROUP_BY_def COUNT_DISTINCT_card comp_def)
  then show ?thesis
    by (simp add: sum_list_distinct_conv_sum_set)
qed

lemma groups_cover:
  "(\<Union>k \<in> key ` set rows. ident ` {r \<in> set rows. key r = k}) = ident ` set rows"
  by auto

lemma sum_groups_ge:
  "card (ident ` set rows) \<le> sum_list (map snd (SELECT_COUNT_DISTINCT key ident rows))"
proof -
  have "card (\<Union>k \<in> key ` set rows. ident ` {r \<in> set rows. key r = k})
      \<le> (\<Sum>k \<in> key ` set rows. card (ident ` {r \<in> set rows. key r = k}))"
    by (rule card_UN_le) simp
  then show ?thesis by (simp only: groups_cover sum_SELECT_COUNT_DISTINCT)
qed

lemma sum_groups_eq:
  fixes key :: "'r \<Rightarrow> 'k"
  assumes "\<forall>r \<in> set rows. \<forall>r' \<in> set rows. ident r = ident r' \<longrightarrow> key r = key r'"
  shows "sum_list (map snd (SELECT_COUNT_DISTINCT key ident rows)) = card (ident ` set rows)"
proof -
  have "card (\<Union>k \<in> key ` set rows. ident ` {r \<in> set rows. key r = k})
      = (\<Sum>k \<in> key ` set rows. card (ident ` {r \<in> set rows. key r = k}))"
  proof (rule card_UN_disjoint)
    show "finite (key ` set rows)" by simp
    show "\<forall>i\<in>key ` set rows. finite (ident ` {r \<in> set rows. key r = i})" by simp
    show "\<forall>i\<in>key ` set rows. \<forall>j\<in>key ` set rows. i \<noteq> j \<longrightarrow>
        ident ` {r \<in> set rows. key r = i} \<inter> ident ` {r \<in> set rows. key r = j} = {}"
    proof (intro ballI impI)
      fix i j :: 'k assume "i \<noteq> j"
      show "ident ` {r \<in> set rows. key r = i} \<inter> ident ` {r \<in> set rows. key r = j} = {}"
      proof (rule ccontr)
        assume "ident ` {r \<in> set rows. key r = i} \<inter> ident ` {r \<in> set rows. key r = j} \<noteq> {}"
        then obtain r r' where k: "key r = i" "key r' = j"
          and r: "r \<in> set rows" "r' \<in> set rows" "ident r = ident r'" by auto
        have "key r = key r'" by (rule assms [rule_format, OF r])
        with k \<open>i \<noteq> j\<close> show False by simp
      qed
    qed
  qed
  then show ?thesis by (simp only: groups_cover sum_SELECT_COUNT_DISTINCT)
qed

lemma reissued_rows_results:
  "get_booking_status_breakdown reissued_rows = [(''Completed'', 1), (''Cancelled'', 1)]"
  "spec_distinct_bookings (set reissued_rows) = 1"
  by code_simp+

lemma sample_rows_status:
  "get_booking_status_breakdown sample_rows = [(''Completed'', 3), (''Cancelled'', 1)]"
  "db_get_booking_status_breakdown sample_table = [(''Completed'', 3), (''Cancelled'', 1)]"
  by code_simp+

text \<open>
  C7, as stated, fails in the file-backed variant: a booking re-emitted under a second status is
  counted once in each status group.
\<close>

theorem status_sum_counterexample:
  "sum_list (map snd (get_booking_status_breakdown reissued_rows)) = 2 \<and>
   spec_distinct_bookings (set reissued_rows) = 1"
  by (simp add: reissued_rows_results)

text \<open>
  C7, amended. The per-status counts sum to at least the distinct-booking count of the whole
  record set, and to exactly that count when no booking identifier occurs under two different
  statuses; in particular in the store-backed variant when \<open>booking_id\<close> is unique, as the
  table's constraint requires.
\<close>

theorem status_counts_sum:
  "spec_distinct_bookings (set csv) \<le> sum_list (map snd (get_booking_status_breakdown csv)) \<and>
   ((\<forall>r \<in> set csv. \<forall>r' \<in> set csv.
       strip_quotes (booking_id r) = strip_quotes (booking_id r') \<longrightarrow>
       booking_status r = booking_status r') \<longrightarrow>
    sum_list (map snd (get_booking_status_breakdown csv)) = spec_distinct_bookings (set csv)) \<and>
   stored_distinct_bookings (set tbl) \<le> sum_list (map snd (db_get_booking_status_breakdown tbl)) \<and>
   (distinct (map booking_id tbl) \<longrightarrow>
    sum_list (map snd (db_get_booking_status_breakdown tbl)) = stored_distinct_bookings (set tbl) \<and>
    stored_distinct_bookings (set tbl) = length tbl)"
proof (intro conjI impI)
  show "spec_distinct_bookings (set csv) \<le> sum_list (map snd (get_booking_status_breakdown csv))"
    by (simp add: get_booking_status_breakdown_def ORDER_BY_DESC_def sum_list_sort_key
        spec_distinct_bookings_def sum_groups_ge)
  show "stored_distinct_bookings (set tbl) \<le> sum_list (map snd (db_get_booking_status_breakdown tbl))"
    by (simp add: db_get_booking_status_breakdown_def ORDER_BY_DESC_def sum_list_sort_key
        stored_distinct_bookings_def sum_groups_ge)
next
  assume "\<forall>r \<in> set csv. \<forall>r' \<in> set csv.
       strip_quotes (booking_id r) = strip_quotes (booking_id r') \<longrightarrow>
       booking_status r = booking_status r'"
  then have "sum_list (map snd (SELECT_COUNT_DISTINCT booking_status
        (\<lambda>r. strip_quotes (booking_id r)) csv)) = card ((\<lambda>r. strip_quotes (booking_id r)) ` set csv)"
    by (rule sum_groups_eq)
  then show "sum_list (map snd (get_booking_status_breakdown csv)) = spec_distinct_bookings (set csv)"
    by (simp add: get_booking_status_breakdown_def ORDER_BY_DESC_def sum_list_sort_key
        spec_distinct_bookings_def)
next
  assume d: "distinct (map booking_id tbl)"
  then have "inj_on booking_id (set tbl)"
    by (simp add: distinct_map)
  then have "\<forall>r \<in> set tbl. \<forall>r' \<in> set tbl. booking_id r = booking_id r' \<longrightarrow>
       booking_status r = booking_status r'"
    by (blast dest: inj_onD)
  then have "sum_list (map snd (SELECT_COUNT_DISTINCT booking_status booking_id tbl))
      = card (booking_id ` set tbl)"
    by (rule sum_groups_eq)
  then show "sum_list (map snd (db_get_booking_status_breakdown tbl)) = stored_distinct_bookings (set tbl)"
    by (simp add: db_get_booking_status_breakdown_def ORDER_BY_DESC_def sum_list_sort_key
        stored_distinct_bookings_def)
  from d have "card (set (map booking_id tbl)) = length (map booking_id tbl)"
    by (rule distinct_card)
  then show "stored_distinct_bookings (set tbl) = length tbl"
    by (simp add: stored_distinct_bookings_def)
qed

theorem status_counts_sum_witness:
  "distinct (map (\<lambda>r. strip_quotes (booking_id r)) sample_rows) \<and>
   distinct (map booking_id sample_table) \<and>
   spec_distinct_bookings (set sample_rows) = 4 \<and>
   stored_distinct_bookings (set sample_table) = 4"
proof -
  have h1: "\<forall>r \<in> set sample_rows. \<forall>r' \<in> set sample_rows.
       strip_quotes (booking_id r) = strip_quotes (booking_id r') \<longrightarrow>
       booking_status r = booking_status r'"
    by (simp add: sample_rows_def strip_quotes_def quote_def)
  have h2: "distinct (map booking_id sample_table)"
    by (simp add: sample_table_def sample_rows_def normalize_dataframe_def quote_def)
  note t = status_counts_sum [of sample_rows sample_table]
  from t h1 have e1: "sum_list (map snd (get_booking_status_breakdown sample_rows))
      = spec_distinct_bookings (set sample_rows)"
    by (rule conjunct2 [THEN conjunct1, THEN mp])
  from t h2 have e2: "sum_list (map snd (db_get_booking_status_breakdown sample_table))
      = stored_distinct_bookings (set sample_table)"
    by (rule conjunct2 [THEN conjunct2, THEN conjunct2, THEN mp, THEN conjunct1])
  have h3: "distinct (map (\<lambda>r. strip_quotes (booking_id r)) sample_rows)"
    by (simp add: sample_rows_def strip_quotes_def quote_def)
  from e1 [symmetric] e2 [symmetric] show ?thesis
    by (intro conjI h2 h3) (simp_all add: sample_rows_status)
qed


section \<open>Top customers\<close>

text \<open>
  The customers ranked first by two executions of the ranking statement have the same count,
  the largest one; they are the same customer when the two executions order equal counts alike,
  and when no other customer has that count.
\<close>

lemma ranked_agree:
  fixes key :: "'r \<Rightarrow> 'k" and ident :: "'r \<Rightarrow> 'i" and ties ties' :: "'k \<times> nat \<Rightarrow> nat"
    and rows :: "'r list"
  defines "X \<equiv> \<lambda>t. ORDER_BY_DESC_ties snd t (SELECT_COUNT_DISTINCT key ident rows)"
  defines "cnt \<equiv> \<lambda>c. card (ident ` {r \<in> set rows. key r = c})"
  assumes ne: "rows \<noteq> []" and n: "0 < n" and t: "LIMIT 1 (X ties') = [(c, m)]"
  shows "LIMIT n (X ties) \<noteq> [] \<and> cnt c = snd (hd (LIMIT n (X ties))) \<and>
         (ties' = ties \<or>
          (\<forall>c' \<in> key ` set rows. c' \<noteq> fst (hd (LIMIT n (X ties))) \<longrightarrow>
             cnt c' < snd (hd (LIMIT n (X ties)))) \<longrightarrow>
          c = fst (hd (LIMIT n (X ties))))"
proof -
  from first_ranked [OF ne, where key = key and ident = ident and ties = ties]
  obtain c1 m1 where 1: "LIMIT 1 (X ties) = [(c1, m1)]" "X ties \<noteq> []" "hd (X ties) = (c1, m1)"
      "c1 \<in> key ` set rows" "m1 = cnt c1" "\<forall>c' \<in> key ` set rows. cnt c' \<le> m1"
    unfolding X_def cnt_def by blast
  from first_ranked [OF ne, where key = key and ident = ident and ties = ties']
  obtain c2 m2 where 2: "LIMIT 1 (X ties') = [(c2, m2)]"
      "c2 \<in> key ` set rows" "m2 = cnt c2" "\<forall>c' \<in> key ` set rows. cnt c' \<le> m2"
    unfolding X_def cnt_def by blast
  from t 2(1) have c: "c2 = c" "m2 = m" by simp_all
  from hd_LIMIT [OF n 1(2)] 1(3)
  have h: "LIMIT n (X ties) \<noteq> []" "hd (LIMIT n (X ties)) = (c1, m1)" by simp_all
  from 1(4) 2(4) have "cnt c1 \<le> m2" by blast
  moreover from 2(2) 1(6) have "cnt c2 \<le> m1" by blast
  ultimately have e: "cnt c = m1" using 1(5) 2(3) c by simp
  have "c = c1" if "ties' = ties"
    using that t 1(1) by simp
  moreover have "c = c1"
    if u: "\<forall>c' \<in> key ` set rows. c' \<noteq> c1 \<longrightarrow> cnt c' < m1"
  proof (rule ccontr)
    assume "c \<noteq> c1"
    with u 2(2) c have "cnt c < m1" by blast
    with e show False by simp
  qed
  ultimately show ?thesis using h e by auto
qed

lemma top_customer_empty: "get_top_customer_payment_methods ties [] = Inr []"
  by (simp add: get_top_customer_payment_methods_def top_customer_def)

lemma top_customer_first:
  assumes p: "get_top_customer_payment_methods ties' csv = Inr pms"
    and mem: "(c, p, n) \<in> set pms" and k: "0 < k"
    and tops: "get_top_customers ties k csv = Inr tops"
  shows "tops \<noteq> [] \<and>
     spec_distinct_bookings {r \<in> set csv. strip_quotes (customer_id r) = c} = snd (hd tops) \<and>
     (ties' = ties \<or>
      (\<forall>c' \<in> (\<lambda>r. strip_quotes (customer_id r)) ` set csv. c' \<noteq> fst (hd tops) \<longrightarrow>
         spec_distinct_bookings {r \<in> set csv. strip_quotes (customer_id r) = c'} < snd (hd tops)) \<longrightarrow>
      c = fst (hd tops))"
proof -
  have ne: "csv \<noteq> []"
  proof
    assume "csv = []"
    with p mem show False by (simp add: top_customer_empty)
  qed
  from first_ranked [OF ne, where key = "(\<lambda>r. strip_quotes (customer_id r))" and ident = "(\<lambda>r. strip_quotes (booking_id r))" and ties = ties']
  obtain c2 m2 where t: "top_customer ties' csv = [(c2, m2)]"
    unfolding top_customer_def by blast
  from p have v: "validate_rows (\<lambda>((a, b), n). map_option (\<lambda>s. (a, s, n)) b)
          (ORDER_BY_DESC snd
             (SELECT_COUNT_DISTINCT (\<lambda>(v, t). (fst t, payment_method v))
                (\<lambda>(v, t). (\<lambda>r. strip_quotes (booking_id r)) v)
                [(v, t). v \<leftarrow> csv, t \<leftarrow> [(c2, m2)], (\<lambda>r. strip_quotes (customer_id r)) v = fst t])) = Inr pms"
    unfolding get_top_customer_payment_methods_def t .
  from payment_methods_reports [OF v] have "list_all (\<lambda>(a, s, n). a = c2) pms" by simp
  with mem have c: "c = c2" by (auto simp: list_all_iff)
  from k tops have r: "tops = LIMIT (nat k) (ORDER_BY_DESC_ties snd ties
      (SELECT_COUNT_DISTINCT (\<lambda>r. strip_quotes (customer_id r)) (\<lambda>r. strip_quotes (booking_id r)) csv))"
    by (simp add: get_top_customers_def)
  from k have n: "0 < nat k" by simp
  from t have t': "LIMIT 1 (ORDER_BY_DESC_ties snd ties'
      (SELECT_COUNT_DISTINCT (\<lambda>r. strip_quotes (customer_id r)) (\<lambda>r. strip_quotes (booking_id r)) csv)) = [(c, m2)]"
    unfolding top_customer_def c .
  from ranked_agree [OF ne n t', where ties = ties]
  show ?thesis unfolding r spec_distinct_bookings_def .
qed

lemma top_customer_reported:
  assumes ne: "csv \<noteq> []" and k: "0 < k"
    and tops: "get_top_customers ties k csv = Inr tops"
    and pm: "\<forall>r \<in> set csv.
      spec_distinct_bookings {r' \<in> set csv. strip_quotes (customer_id r') = strip_quotes (customer_id r)} = snd (hd tops)
        \<longrightarrow> payment_method r \<noteq> None"
  shows "\<exists>pms. get_top_customer_payment_methods ties' csv = Inr pms \<and> pms \<noteq> []"
proof -
  from first_ranked [OF ne, where key = "(\<lambda>r. strip_quotes (customer_id r))" and ident = "(\<lambda>r. strip_quotes (booking_id r))" and ties = ties']
  obtain c2 m2 where t: "top_customer ties' csv = [(c2, m2)]"
    and c2: "c2 \<in> (\<lambda>r. strip_quotes (customer_id r)) ` set csv"
    unfolding top_customer_def by blast
  from k tops have r: "tops = LIMIT (nat k) (ORDER_BY_DESC_ties snd ties
      (SELECT_COUNT_DISTINCT (\<lambda>r. strip_quotes (customer_id r)) (\<lambda>r. strip_quotes (booking_id r)) csv))"
    by (simp add: get_top_customers_def)
  from k have n: "0 < nat k" by simp
  from t have t': "LIMIT 1 (ORDER_BY_DESC_ties snd ties'
      (SELECT_COUNT_DISTINCT (\<lambda>r. strip_quotes (customer_id r)) (\<lambda>r. strip_quotes (booking_id r)) csv)) = [(c2, m2)]"
    unfolding top_customer_def .
  from ranked_agree [OF ne n t', where ties = ties]
  have e: "spec_distinct_bookings {r \<in> set csv. strip_quotes (customer_id r) = c2} = snd (hd tops)"
    unfolding r spec_distinct_bookings_def by (rule conjunct2 [THEN conjunct1])
  have "\<forall>r \<in> set csv. strip_quotes (customer_id r) = c2 \<longrightarrow> payment_method r \<noteq> None"
  proof (intro ballI impI)
    fix r :: booking assume r: "r \<in> set csv" "strip_quotes (customer_id r) = c2"
    from e r(2) have "spec_distinct_bookings {r' \<in> set csv. strip_quotes (customer_id r') = strip_quotes (customer_id r)} = snd (hd tops)"
      by simp
    with pm r(1) show "payment_method r \<noteq> None" by blast
  qed
  from payment_methods_validate_customer [OF this c2, where m = m2 and ident = "(\<lambda>r. strip_quotes (booking_id r))"]
  show ?thesis unfolding get_top_customer_payment_methods_def t .
qed

lemma db_top_customer_empty: "db_get_top_customer_payment_methods ties [] = Inr []"
  by (simp add: db_get_top_customer_payment_methods_def db_top_customer_def)

lemma db_top_customer_first:
  assumes p: "db_get_top_customer_payment_methods ties' tbl = Inr pms"
    and mem: "(c, p, n) \<in> set pms" and k: "0 < k"
    and tops: "db_get_top_customers ties k tbl = Inr tops"
  shows "tops \<noteq> [] \<and>
     stored_distinct_bookings {r \<in> set tbl. customer_id r = c} = snd (hd tops) \<and>
     (ties' = ties \<or>
      (\<forall>c' \<in> customer_id ` set tbl. c' \<noteq> fst (hd tops) \<longrightarrow>
         stored_distinct_bookings {r \<in> set tbl. customer_id r = c'} < snd (hd tops)) \<longrightarrow>
      c = fst (hd tops))"
proof -
  have ne: "tbl \<noteq> []"
  proof
    assume "tbl = []"
    with p mem show False by (simp add: db_top_customer_empty)
  qed
  from first_ranked [OF ne, where key = "customer_id" and ident = "booking_id" and ties = ties']
  obtain c2 m2 where t: "db_top_customer ties' tbl = [(c2, m2)]"
    unfolding db_top_customer_def by blast
  from p have v: "validate_rows (\<lambda>((a, b), n). map_option (\<lambda>s. (a, s, n)) b)
          (ORDER_BY_DESC snd
             (SELECT_COUNT_DISTINCT (\<lambda>(v, t). (fst t, payment_method v))
                (\<lambda>(v, t). booking_id v)
                [(v, t). v \<leftarrow> tbl, t \<leftarrow> [(c2, m2)], customer_id v = fst t])) = Inr pms"
    unfolding db_get_top_customer_payment_methods_def t .
  from payment_methods_reports [OF v] have "list_all (\<lambda>(a, s, n). a = c2) pms" by simp
  with mem have c: "c = c2" by (auto simp: list_all_iff)
  from k tops have r: "tops = LIMIT (nat k) (ORDER_BY_DESC_ties snd ties
      (SELECT_COUNT_DISTINCT customer_id booking_id tbl))"
    by (simp add: db_get_top_customers_def)
  from k have n: "0 < nat k" by simp
  from t have t': "LIMIT 1 (ORDER_BY_DESC_ties snd ties'
      (SELECT_COUNT_DISTINCT customer_id booking_id tbl)) = [(c, m2)]"
    unfolding db_top_customer_def c .
  from ranked_agree [OF ne n t', where ties = ties]
  show ?thesis unfolding r stored_distinct_bookings_def .
qed

lemma db_top_customer_reported:
  assumes ne: "tbl \<noteq> []" and k: "0 < k"
    and tops: "db_get_top_customers ties k tbl = Inr tops"
    and pm: "\<forall>r \<in> set tbl.
      stored_distinct_bookings {r' \<in> set tbl. customer_id r' = customer_id r} = snd (hd tops)
        \<longrightarrow> payment_method r \<noteq> None"
  shows "\<exists>pms. db_get_top_customer_payment_methods ties' tbl = Inr pms \<and> pms \<noteq> []"
proof -
  from first_ranked [OF ne, where key = "customer_id" and ident = "booking_id" and ties = ties']
  obtain c2 m2 where t: "db_top_customer ties' tbl = [(c2, m2)]"
    and c2: "c2 \<in> customer_id ` set tbl"
    unfolding db_top_customer_def by blast
  from k tops have r: "tops = LIMIT (nat k) (ORDER_BY_DESC_ties snd ties
      (SELECT_COUNT_DISTINCT customer_id booking_id tbl))"
    by (simp add: db_get_top_customers_def)
  from k have n: "0 < nat k" by simp
  from t have t': "LIMIT 1 (ORDER_BY_DESC_ties snd ties'
      (SELECT_COUNT_DISTINCT customer_id booking_id tbl)) = [(c2, m2)]"
    unfolding db_top_customer_def .
  from ranked_agree [OF ne n t', where ties = ties]
  have e: "stored_distinct_bookings {r \<in> set tbl. customer_id r = c2} = snd (hd tops)"
    unfolding r stored_distinct_bookings_def by (rule conjunct2 [THEN conjunct1])
  have "\<forall>r \<in> set tbl. customer_id r = c2 \<longrightarrow> payment_method r \<noteq> None"
  proof (intro ballI impI)
    fix r :: booking assume r: "r \<in> set tbl" "customer_id r = c2"
    from e r(2) have "stored_distinct_bookings {r' \<in> set tbl. customer_id r' = customer_id r} = snd (hd tops)"
      by simp
    with pm r(1) show "payment_method r \<noteq> None" by blast
  qed
  from payment_methods_validate_customer [OF this c2, where m = m2 and ident = "booking_id"]
  show ?thesis unfolding db_get_top_customer_payment_methods_def t .
qed

text \<open>
  C8, as stated: with two customers of one booking each, an execution of top-customers that
  orders them as first seen has customer C001 first, and an execution of
  top-customer-payment-methods whose ranking puts C003 first reports C003.
\<close>

theorem top_customer_tie_counterexample:
  "get_top_customers first_seen 10 tied_rows = Inr [(''C001'', 1), (''C003'', 1)] \<and>
   get_top_customer_payment_methods C003_first tied_rows = Inr [(''C003'', ''Cash'', 1)] \<and>
   db_get_top_customers first_seen 10 (loaded_table tied_rows)
     = Inr [(''C001'', 1), (''C003'', 1)] \<and>
   db_get_top_customer_payment_methods C003_first (loaded_table tied_rows)
     = Inr [(''C003'', ''Cash'', 1)]"
proof -
  have l: "loaded_table tied_rows = normalize_dataframe tied_rows"
    by (simp add: loaded_table_def upsert_rows_def on_conflict_do_nothing_def fits_schema_def
          tied_rows_def normalize_dataframe_def quote_def)
  show ?thesis
    unfolding l by (simp add: tied_rows_def eval_defs C003_first_def)
qed

text \<open>
  C8, amended. For every record set and every limit \<open>k\<close> from 1 to 100, top-customers returns
  at most \<open>k\<close> entries in descending order of their distinct-booking counts. The customer of
  every row that top-customer-payment-methods reports has the count of the first of these
  entries, the largest one, and is the customer of that entry when the two executions order
  the customers with equal counts alike, and when no other customer has that count. The rows
  are reported, at least one, when the record set is not empty and no row of a customer with
  the largest count lacks a payment method.
\<close>

theorem top_customers_sorted_and_first:
  assumes "1 \<le> k" and "k \<le> 100"
  shows "(\<exists>tops. get_top_customers ties k csv = Inr tops \<and> length tops \<le> nat k \<and>
        sorted_wrt (\<lambda>a b. snd b \<le> snd a) tops \<and>
        (\<forall>pms. get_top_customer_payment_methods ties' csv = Inr pms \<longrightarrow>
           (\<forall>(c, p, n) \<in> set pms. tops \<noteq> [] \<and>
              spec_distinct_bookings {r \<in> set csv. strip_quotes (customer_id r) = c} = snd (hd tops) \<and>
              (ties' = ties \<or>
               (\<forall>c' \<in> (\<lambda>r. strip_quotes (customer_id r)) ` set csv. c' \<noteq> fst (hd tops) \<longrightarrow>
                  spec_distinct_bookings {r \<in> set csv. strip_quotes (customer_id r) = c'} < snd (hd tops)) \<longrightarrow>
               c = fst (hd tops)))) \<and>
        (csv \<noteq> [] \<and>
         (\<forall>r \<in> set csv.
            spec_distinct_bookings {r' \<in> set csv. strip_quotes (customer_id r') = strip_quotes (customer_id r)} = snd (hd tops)
              \<longrightarrow> payment_method r \<noteq> None) \<longrightarrow>
         (\<exists>pms. get_top_customer_payment_methods ties' csv = Inr pms \<and> pms \<noteq> []))) \<and>
   (\<exists>tops. db_get_top_customers ties k tbl = Inr tops \<and> length tops \<le> nat k \<and>
        sorted_wrt (\<lambda>a b. snd b \<le> snd a) tops \<and>
        (\<forall>pms. db_get_top_customer_payment_methods ties' tbl = Inr pms \<longrightarrow>
           (\<forall>(c, p, n) \<in> set pms. tops \<noteq> [] \<and>
              stored_distinct_bookings {r \<in> set tbl. customer_id r = c} = snd (hd tops) \<and>
              (ties' = ties \<or>
               (\<forall>c' \<in> customer_id ` set tbl. c' \<noteq> fst (hd tops) \<longrightarrow>
                  stored_distinct_bookings {r \<in> set tbl. customer_id r = c'} < snd (hd tops)) \<longrightarrow>
               c = fst (hd tops)))) \<and>
        (tbl \<noteq> [] \<and>
         (\<forall>r \<in> set tbl.
            stored_distinct_bookings {r' \<in> set tbl. customer_id r' = customer_id r} = snd (hd tops)
              \<longrightarrow> payment_method r \<noteq> None) \<longrightarrow>
         (\<exists>pms. db_get_top_customer_payment_methods ties' tbl = Inr pms \<and> pms \<noteq> [])))"
proof (rule conjI)
  let ?tops = "LIMIT (nat k) (ORDER_BY_DESC_ties snd ties
      (SELECT_COUNT_DISTINCT (\<lambda>r. strip_quotes (customer_id r)) (\<lambda>r. strip_quotes (booking_id r)) csv))"
  from assms have r: "get_top_customers ties k csv = Inr ?tops"
    by (simp add: get_top_customers_def)
  from assms have k: "0 < k" by simp
  have 1: "length ?tops \<le> nat k" by (rule length_LIMIT)
  have 2: "sorted_wrt (\<lambda>a b. snd b \<le> snd a) ?tops"
    by (rule LIMIT_sorted) (rule ORDER_BY_DESC_ties_sorted)
  have 3: "\<forall>pms. get_top_customer_payment_methods ties' csv = Inr pms \<longrightarrow>
        (\<forall>(c, p, n) \<in> set pms. ?tops \<noteq> [] \<and>
           spec_distinct_bookings {r \<in> set csv. strip_quotes (customer_id r) = c} = snd (hd ?tops) \<and>
           (ties' = ties \<or>
            (\<forall>c' \<in> (\<lambda>r. strip_quotes (customer_id r)) ` set csv. c' \<noteq> fst (hd ?tops) \<longrightarrow>
               spec_distinct_bookings {r \<in> set csv. strip_quotes (customer_id r) = c'} < snd (hd ?tops)) \<longrightarrow>
            c = fst (hd ?tops)))"
  proof (intro allI impI ballI)
    fix pms x
    assume p: "get_top_customer_payment_methods ties' csv = Inr pms" and x: "x \<in> set pms"
    obtain c p' n where xe: "x = (c, p', n)" by (cases x)
    from x xe have "(c, p', n) \<in> set pms" by simp
    from top_customer_first [OF p this k r]
    show "case x of (c, p, n) \<Rightarrow> ?tops \<noteq> [] \<and>
           spec_distinct_bookings {r \<in> set csv. strip_quotes (customer_id r) = c} = snd (hd ?tops) \<and>
           (ties' = ties \<or>
            (\<forall>c' \<in> (\<lambda>r. strip_quotes (customer_id r)) ` set csv. c' \<noteq> fst (hd ?tops) \<longrightarrow>
               spec_distinct_bookings {r \<in> set csv. strip_quotes (customer_id r) = c'} < snd (hd ?tops)) \<longrightarrow>
            c = fst (hd ?tops))"
      unfolding xe prod.case .
  qed
  have 4: "csv \<noteq> [] \<and>
      (\<forall>r \<in> set csv.
         spec_distinct_bookings {r' \<in> set csv. strip_quotes (customer_id r') = strip_quotes (customer_id r)} = snd (hd ?tops)
           \<longrightarrow> payment_method r \<noteq> None) \<longrightarrow>
      (\<exists>pms. get_top_customer_payment_methods ties' csv = Inr pms \<and> pms \<noteq> [])"
  proof (intro impI, elim conjE)
    assume ne: "csv \<noteq> []" and pm: "\<forall>r \<in> set csv.
         spec_distinct_bookings {r' \<in> set csv. strip_quotes (customer_id r') = strip_quotes (customer_id r)} = snd (hd ?tops)
           \<longrightarrow> payment_method r \<noteq> None"
    show "\<exists>pms. get_top_customer_payment_methods ties' csv = Inr pms \<and> pms \<noteq> []"
      by (rule top_customer_reported [OF ne k r pm])
  qed
  from r 1 2 3 4 show "(\<exists>tops. get_top_customers ties k csv = Inr tops \<and> length tops \<le> nat k \<and>
     sorted_wrt (\<lambda>a b. snd b \<le> snd a) tops \<and>
     (\<forall>pms. get_top_customer_payment_methods ties' csv = Inr pms \<longrightarrow>
        (\<forall>(c, p, n) \<in> set pms. tops \<noteq> [] \<and>
           spec_distinct_bookings {r \<in> set csv. strip_quotes (customer_id r) = c} = snd (hd tops) \<and>
           (ties' = ties \<or>
            (\<forall>c' \<in> (\<lambda>r. strip_quotes (customer_id r)) ` set csv. c' \<noteq> fst (hd tops) \<longrightarrow>
               spec_distinct_bookings {r \<in> set csv. strip_quotes (customer_id r) = c'} < snd (hd tops)) \<longrightarrow>
            c = fst (hd tops)))) \<and>
     (csv \<noteq> [] \<and>
      (\<forall>r \<in> set csv.
         spec_distinct_bookings {r' \<in> set csv. strip_quotes (customer_id r') = strip_quotes (customer_id r)} = snd (hd tops)
           \<longrightarrow> payment_method r \<noteq> None) \<longrightarrow>
      (\<exists>pms. get_top_customer_payment_methods ties' csv = Inr pms \<and> pms \<noteq> [])))"
    by blast
next
  let ?tops = "LIMIT (nat k) (ORDER_BY_DESC_ties snd ties
      (SELECT_COUNT_DISTINCT customer_id booking_id tbl))"
  from assms have r: "db_get_top_customers ties k tbl = Inr ?tops"
    by (simp add: db_get_top_customers_def)
  from assms have k: "0 < k" by simp
  have 1: "length ?tops \<le> nat k" by (rule length_LIMIT)
  have 2: "sorted_wrt (\<lambda>a b. snd b \<le> snd a) ?tops"
    by (rule LIMIT_sorted) (rule ORDER_BY_DESC_ties_sorted)
  have 3: "\<forall>pms. db_get_top_customer_payment_methods ties' tbl = Inr pms \<longrightarrow>
        (\<forall>(c, p, n) \<in> set pms. ?tops \<noteq> [] \<and>
           stored_distinct_bookings {r \<in> set tbl. customer_id r = c} = snd (hd ?tops) \<and>
           (ties' = ties \<or>
            (\<forall>c' \<in> customer_id ` set tbl. c' \<noteq> fst (hd ?tops) \<longrightarrow>
               stored_distinct_bookings {r \<in> set tbl. customer_id r = c'} < snd (hd ?tops)) \<longrightarrow>
            c = fst (hd ?tops)))"
  proof (intro allI impI ballI)
    fix pms x
    assume p: "db_get_top_customer_payment_methods ties' tbl = Inr pms" and x: "x \<in> set pms"
    obtain c p' n where xe: "x = (c, p', n)" by (cases x)
    from x xe have "(c, p', n) \<in> set pms" by simp
    from db_top_customer_first [OF p this k r]
    show "case x of (c, p, n) \<Rightarrow> ?tops \<noteq> [] \<and>
           stored_distinct_bookings {r \<in> set tbl. customer_id r = c} = snd (hd ?tops) \<and>
           (ties' = ties \<or>
            (\<forall>c' \<in> customer_id ` set tbl. c' \<noteq> fst (hd ?tops) \<longrightarrow>
               stored_distinct_bookings {r \<in> set tbl. customer_id r = c'} < snd (hd ?tops)) \<longrightarrow>
            c = fst (hd ?tops))"
      unfolding xe prod.case .
  qed
  have 4: "tbl \<noteq> [] \<and>
      (\<forall>r \<in> set tbl.
         stored_distinct_bookings {r' \<in> set tbl. customer_id r' = customer_id r} = snd (hd ?tops)
           \<longrightarrow> payment_method r \<noteq> None) \<longrightarrow>
      (\<exists>pms. db_get_top_customer_payment_methods ties' tbl = Inr pms \<and> pms \<noteq> [])"
  proof (intro impI, elim conjE)
    assume ne: "tbl \<noteq> []" and pm: "\<forall>r \<in> set tbl.
         stored_distinct_bookings {r' \<in> set tbl. customer_id r' = customer_id r} = snd (hd ?tops)
           \<longrightarrow> payment_method r \<noteq> None"
    show "\<exists>pms. db_get_top_customer_payment_methods ties' tbl = Inr pms \<and> pms \<noteq> []"
      by (rule db_top_customer_reported [OF ne k r pm])
  qed
  from r 1 2 3 4 show "(\<exists>tops. db_get_top_customers ties k tbl = Inr tops \<and> length tops \<le> nat k \<and>
     sorted_wrt (\<lambda>a b. snd b \<le> snd a) tops \<and>
     (\<forall>pms. db_get_top_customer_payment_methods ties' tbl = Inr pms \<longrightarrow>
        (\<forall>(c, p, n) \<in> set pms. tops \<noteq> [] \<and>
           stored_distinct_bookings {r \<in> set tbl. customer_id r = c} = snd (hd tops) \<and>
           (ties' = ties \<or>
            (\<forall>c' \<in> customer_id ` set tbl. c' \<noteq> fst (hd tops) \<longrightarrow>
               stored_distinct_bookings {r \<in> set tbl. customer_id r = c'} < snd (hd tops)) \<longrightarrow>
            c = fst (hd tops)))) \<and>
     (tbl \<noteq> [] \<and>
      (\<forall>r \<in> set tbl.
         stored_distinct_bookings {r' \<in> set tbl. customer_id r' = customer_id r} = snd (hd tops)
           \<longrightarrow> payment_method r \<noteq> None) \<longrightarrow>
      (\<exists>pms. db_get_top_customer_payment_methods ties' tbl = Inr pms \<and> pms \<noteq> [])))"
    by blast
qed

lemma spec_eval:
  "spec_distinct_bookings {r \<in> set xs. P r}
     = COUNT_DISTINCT (map (\<lambda>r. strip_quotes (booking_id r)) (filter P xs))"
  by (simp add: COUNT_DISTINCT_card spec_distinct_bookings_def)

lemma stored_eval:
  "stored_distinct_bookings {r \<in> set xs. P r} = COUNT_DISTINCT (map booking_id (filter P xs))"
  by (simp add: COUNT_DISTINCT_card stored_distinct_bookings_def)

lemma sample_rows_top:
  "get_top_customers first_seen 2 sample_rows = Inr [(''C001'', 2), (''C002'', 1)]"
  "get_top_customer_payment_methods C003_first sample_rows = Inr [(''C001'', ''Card'', 2)]"
  "db_get_top_customers first_seen 2 sample_table = Inr [(''C001'', 2), (''C002'', 1)]"
  "db_get_top_customer_payment_methods C003_first sample_table = Inr [(''C001'', ''Card'', 2)]"
  by (simp_all add: sample_table_def sample_rows_def eval_defs C003_first_def)

lemma sample_rows_one_top:
  "\<forall>c' \<in> (\<lambda>r. strip_quotes (customer_id r)) ` set sample_rows. c' \<noteq> ''C001'' \<longrightarrow>
     spec_distinct_bookings {r \<in> set sample_rows. strip_quotes (customer_id r) = c'} < 2"
  "\<forall>r \<in> set sample_rows.
     spec_distinct_bookings
       {r' \<in> set sample_rows. strip_quotes (customer_id r') = strip_quotes (customer_id r)} = 2
       \<longrightarrow> payment_method r \<noteq> None"
  "\<forall>c' \<in> customer_id ` set sample_table. c' \<noteq> ''C001'' \<longrightarrow>
     stored_distinct_bookings {r \<in> set sample_table. customer_id r = c'} < 2"
  "\<forall>r \<in> set sample_table.
     stored_distinct_bookings {r' \<in> set sample_table. customer_id r' = customer_id r} = 2
       \<longrightarrow> payment_method r \<noteq> None"
  unfolding spec_eval stored_eval
  by (simp_all add: sample_table_def sample_rows_def normalize_dataframe_def COUNT_DISTINCT_def
        strip_quotes_def quote_def)

lemma first_entry_reported:
  assumes "\<exists>tops. res = Inr tops \<and> A tops \<and> B tops \<and>
      (\<forall>pms. res' = Inr pms \<longrightarrow>
         (\<forall>(c, p, n) \<in> set pms. tops \<noteq> [] \<and> count c = snd (hd tops) \<and>
            (T \<or> U tops \<longrightarrow> c = fst (hd tops)))) \<and>
      (V tops \<longrightarrow> W)"
    and "res = Inr ts" and "res' = Inr ps" and "(c, p, n) \<in> set ps"
  shows "count c = snd (hd ts) \<and> (U ts \<longrightarrow> c = fst (hd ts)) \<and> (V ts \<longrightarrow> W)"
  using assms by fastforce

theorem top_customers_sorted_and_first_witness:
  "(1::int) \<le> 2 \<and> (2::int) \<le> 100 \<and> sample_rows \<noteq> [] \<and> sample_table \<noteq> [] \<and>
   get_top_customers first_seen 2 sample_rows = Inr [(''C001'', 2), (''C002'', 1)] \<and>
   get_top_customer_payment_methods C003_first sample_rows = Inr [(''C001'', ''Card'', 2)] \<and>
   list_all (\<lambda>c'. c' = ''C001'' \<or>
       spec_distinct_bookings {r \<in> set sample_rows. strip_quotes (customer_id r) = c'} < 2)
     (map (\<lambda>r. strip_quotes (customer_id r)) sample_rows) \<and>
   list_all (\<lambda>r. strip_quotes (customer_id r) \<noteq> ''C001'' \<or> payment_method r \<noteq> None)
     sample_rows \<and>
   spec_distinct_bookings {r \<in> set sample_rows. strip_quotes (customer_id r) = ''C001''} = 2 \<and>
   db_get_top_customers first_seen 2 sample_table = Inr [(''C001'', 2), (''C002'', 1)] \<and>
   db_get_top_customer_payment_methods C003_first sample_table
     = Inr [(''C001'', ''Card'', 2)] \<and>
   list_all (\<lambda>c'. c' = ''C001'' \<or>
       stored_distinct_bookings {r \<in> set sample_table. customer_id r = c'} < 2)
     (map customer_id sample_table) \<and>
   list_all (\<lambda>r. customer_id r \<noteq> ''C001'' \<or> payment_method r \<noteq> None) sample_table \<and>
   stored_distinct_bookings {r \<in> set sample_table. customer_id r = ''C001''} = 2 \<and>
   length [(''C001'', 2::nat), (''C002'', 1)] \<le> nat 2 \<and>
   sorted_wrt (\<lambda>a b. snd b \<le> snd a) [(''C001'', 2::nat), (''C002'', 1)] \<and>
   fst (hd [(''C001'', 2::nat), (''C002'', 1)]) = ''C001''"
proof -
  have b: "(1::int) \<le> 2" "(2::int) \<le> 100" by simp_all
  note t = top_customers_sorted_and_first [where k = 2 and ties = first_seen
      and ties' = C003_first and csv = sample_rows and tbl = sample_table, OF b]
  have m: "(''C001'', ''Card'', 2) \<in> set [(''C001'', ''Card'', 2::nat)]" by simp
  note f = first_entry_reported [OF t [THEN conjunct1] sample_rows_top(1) sample_rows_top(2) m]
  note g = first_entry_reported [OF t [THEN conjunct2] sample_rows_top(3) sample_rows_top(4) m]
  from f have f1: "spec_distinct_bookings
      {r \<in> set sample_rows. strip_quotes (customer_id r) = ''C001''} = 2" by simp
  from g have g1: "stored_distinct_bookings
      {r \<in> set sample_table. customer_id r = ''C001''} = 2" by simp
  have ne: "sample_rows \<noteq> []" "sample_table \<noteq> []"
    by (simp_all add: sample_table_def sample_rows_def normalize_dataframe_def)
  from sample_rows_one_top(1) have u1: "list_all (\<lambda>c'. c' = ''C001'' \<or>
       spec_distinct_bookings {r \<in> set sample_rows. strip_quotes (customer_id r) = c'} < 2)
     (map (\<lambda>r. strip_quotes (customer_id r)) sample_rows)"
    unfolding list_all_iff by auto
  from sample_rows_one_top(3) have u2: "list_all (\<lambda>c'. c' = ''C001'' \<or>
       stored_distinct_bookings {r \<in> set sample_table. customer_id r = c'} < 2)
     (map customer_id sample_table)"
    unfolding list_all_iff by auto
  have p1: "list_all (\<lambda>r. strip_quotes (customer_id r) \<noteq> ''C001'' \<or> payment_method r \<noteq> None)
     sample_rows"
    by (simp add: sample_rows_def strip_quotes_def quote_def)
  have p2: "list_all (\<lambda>r. customer_id r \<noteq> ''C001'' \<or> payment_method r \<noteq> None) sample_table"
    by (simp add: sample_table_def sample_rows_def normalize_dataframe_def quote_def)
  show ?thesis
    by (intro conjI b ne sample_rows_top u1 u2 p1 p2 f1 g1) simp_all
qed

section \<open>Order of the listing\<close>

lemma ORDER_BY_sorted: "sorted (map f (ORDER_BY f xs))"
  by (simp add: ORDER_BY_def)

lemma db_listing_sorted:
  "db_get_bookings limit status vt cid tbl = Inr resp \<Longrightarrow> sorted (map listing_order (bookings resp))"
  by (auto simp: db_get_bookings_def Let_def LIMIT_def ORDER_BY_def take_map [symmetric]
      intro: sorted_wrt_take split: if_splits)

text \<open>
  C3 at the failing input: the file-backed listing returns the rows in file order, here the
  booking of 3 September before that of 2 September, which is not ascending by date; the
  store-backed listing of the same rows is ascending.
\<close>

theorem file_listing_keeps_file_order:
  "fst (get_bookings 100 None None None (Some unordered_rows))
     = Inr \<lparr>bookings = unordered_rows, total_found = 2, returned = 2\<rparr> \<and>
   \<not> sorted (map listing_order unordered_rows) \<and>
   db_get_bookings 100 None None None (normalize_dataframe unordered_rows)
     = Inr \<lparr>bookings = rev (normalize_dataframe unordered_rows), total_found = 2,
            returned = 2\<rparr> \<and>
   sorted (map listing_order (rev (normalize_dataframe unordered_rows)))"
  by (simp add: get_bookings_def db_get_bookings_def truthy_def head_def where_sql_def
        unordered_rows_def LIMIT_def ORDER_BY_def listing_order_def nulls_last_def quote_def Let_def
        normalize_dataframe_def)

section \<open>Lookup by identifier\<close>

lemma wrapped_once_match:
  assumes "wrapped_once s"
  shows "s = [quote] @ bid @ [quote] \<longleftrightarrow> quote \<notin> set bid \<and> strip_quotes s = bid"
proof -
  from assms obtain x where x: "s = quote # x @ [quote]" "quote \<notin> set x"
    by (auto simp: wrapped_once_iff)
  then have "strip_quotes s = x" using strip_quotes_wrapped [of x] by simp
  with x show ?thesis by auto
qed

lemma filter_first_find:
  "(case filter P xs of [] \<Rightarrow> a | x # _ \<Rightarrow> b x) = (case find P xs of None \<Rightarrow> a | Some x \<Rightarrow> b x)"
  by (induction xs) auto

lemma LIMIT_one_first:
  "(case LIMIT 1 xs of [] \<Rightarrow> a | x # _ \<Rightarrow> b x) = (case xs of [] \<Rightarrow> a | x # _ \<Rightarrow> b x)"
  by (cases xs) (simp_all add: LIMIT_def)

lemma file_lookup_find:
  assumes "\<forall>r \<in> set df. wrapped_once (booking_id r)"
  shows "fst (get_booking_by_id bid (Some df)) =
     (case find (\<lambda>r. quote \<notin> set bid \<and> strip_quotes (booking_id r) = bid) df of
        None \<Rightarrow> Inl (HTTPException 404 ''Booking not found'') | Some r \<Rightarrow> Inr r)"
proof -
  have "filter (\<lambda>r. booking_id r = [quote] @ bid @ [quote]) df
      = filter (\<lambda>r. quote \<notin> set bid \<and> strip_quotes (booking_id r) = bid) df"
    by (rule filter_cong [OF refl]) (use assms wrapped_once_match in blast)
  moreover have "fst (get_booking_by_id bid (Some df)) =
     (case filter (\<lambda>r. booking_id r = [quote] @ bid @ [quote]) df of
        [] \<Rightarrow> Inl (HTTPException 404 ''Booking not found'') | r # _ \<Rightarrow> Inr r)"
    by (simp add: get_booking_by_id_def Let_def split: list.splits)
  ultimately show ?thesis by (simp only: filter_first_find)
qed

lemma db_lookup_find:
  assumes "\<forall>r \<in> set tbl. quote \<notin> set (booking_id r)"
  shows "db_get_booking_by_id bid tbl =
     (case find (\<lambda>r. quote \<notin> set bid \<and> strip_quotes (booking_id r) = bid) tbl of
        None \<Rightarrow> Inl (HTTPException 404 ''Booking not found'') | Some r \<Rightarrow> Inr r)"
proof -
  have "filter (\<lambda>r. booking_id r = bid) tbl
      = filter (\<lambda>r. quote \<notin> set bid \<and> strip_quotes (booking_id r) = bid) tbl"
  proof (rule filter_cong [OF refl])
    fix r assume "r \<in> set tbl"
    with assms have q: "quote \<notin> set (booking_id r)" by simp
    then have "strip_quotes (booking_id r) = booking_id r"
      by (simp add: strip_quotes_filter filter_id_conv) metis
    with q show "(booking_id r = bid) = (quote \<notin> set bid \<and> strip_quotes (booking_id r) = bid)"
      by auto
  qed
  then show ?thesis
    by (simp only: db_get_booking_by_id_def LIMIT_one_first filter_first_find)
qed

text \<open>
  C4, as stated, fails in both variants: the identifier B002 is found, the same identifier
  wrapped in quotes is not.
\<close>

theorem lookup_quoted_counterexample:
  "fst (get_booking_by_id ''B002'' (Some sample_rows)) = Inr (sample_rows ! 1) \<and>
   fst (get_booking_by_id ([quote] @ ''B002'' @ [quote]) (Some sample_rows))
     = Inl (HTTPException 404 ''Booking not found'') \<and>
   db_get_booking_by_id ''B002'' sample_table = Inr (sample_table ! 1) \<and>
   db_get_booking_by_id ([quote] @ ''B002'' @ [quote]) sample_table
     = Inl (HTTPException 404 ''Booking not found'')"
  by (simp add: get_booking_by_id_def db_get_booking_by_id_def sample_table_def sample_rows_def
        normalize_dataframe_def LIMIT_def quote_def Let_def)

text \<open>
  C4, amended. Neither variant normalizes the identifier it is given: the file-backed lookup
  wraps it in one pair of quotes and compares with the stored text, the store-backed lookup
  compares it as it is. With identifiers stored as the file has them (wrapped once) and as the
  load leaves them (without quotes), an identifier without quote characters finds the first
  record whose quote-stripped \<open>booking_id\<close> equals it, or is reported not found; an identifier
  that arrives with a quote character is reported not found; the cache is unchanged.
\<close>

theorem lookup_by_unquoted_id:
  assumes "\<forall>r \<in> set df. wrapped_once (booking_id r)"
    and "\<forall>r \<in> set tbl. quote \<notin> set (booking_id r)"
  shows "(quote \<notin> set bid \<longrightarrow>
            fst (get_booking_by_id bid (Some df)) =
              (case find (\<lambda>r. strip_quotes (booking_id r) = bid) df of
                 None \<Rightarrow> Inl (HTTPException 404 ''Booking not found'') | Some r \<Rightarrow> Inr r) \<and>
            db_get_booking_by_id bid tbl =
              (case find (\<lambda>r. strip_quotes (booking_id r) = bid) tbl of
                 None \<Rightarrow> Inl (HTTPException 404 ''Booking not found'') | Some r \<Rightarrow> Inr r)) \<and>
         (quote \<in> set bid \<longrightarrow>
            fst (get_booking_by_id bid (Some df)) = Inl (HTTPException 404 ''Booking not found'') \<and>
            db_get_booking_by_id bid tbl = Inl (HTTPException 404 ''Booking not found'')) \<and>
         snd (get_booking_by_id bid (Some df)) = Some df"
proof (intro conjI impI)
  assume "quote \<notin> set bid"
  then show "fst (get_booking_by_id bid (Some df)) =
              (case find (\<lambda>r. strip_quotes (booking_id r) = bid) df of
                 None \<Rightarrow> Inl (HTTPException 404 ''Booking not found'') | Some r \<Rightarrow> Inr r)"
    by (simp add: file_lookup_find [OF assms(1)])
next
  assume "quote \<notin> set bid"
  then show "db_get_booking_by_id bid tbl =
              (case find (\<lambda>r. strip_quotes (booking_id r) = bid) tbl of
                 None \<Rightarrow> Inl (HTTPException 404 ''Booking not found'') | Some r \<Rightarrow> Inr r)"
    by (simp add: db_lookup_find [OF assms(2)])
next
  assume q: "quote \<in> set bid"
  then have "find (\<lambda>r. quote \<notin> set bid \<and> strip_quotes (booking_id r) = bid) df = None"
    by (simp add: find_None_iff)
  then show "fst (get_booking_by_id bid (Some df)) = Inl (HTTPException 404 ''Booking not found'')"
    by (simp add: file_lookup_find [OF assms(1)])
  from q have "find (\<lambda>r. quote \<notin> set bid \<and> strip_quotes (booking_id r) = bid) tbl = None"
    by (simp add: find_None_iff)
  then show "db_get_booking_by_id bid tbl = Inl (HTTPException 404 ''Booking not found'')"
    by (simp add: db_lookup_find [OF assms(2)])
next
  show "snd (get_booking_by_id bid (Some df)) = Some df"
    by (simp add: get_booking_by_id_def Let_def split: list.splits)
qed

lemma sample_rows_wrapped:
  "\<forall>r \<in> set sample_rows. wrapped_once (booking_id r)"
  "\<forall>r \<in> set sample_table. quote \<notin> set (booking_id r)"
  by (simp_all add: sample_rows_def sample_table_def normalize_dataframe_def wrapped_once_def
        quote_def)

theorem lookup_by_unquoted_id_witness:
  "list_all (\<lambda>r. wrapped_once (booking_id r)) sample_rows \<and>
   list_all (\<lambda>r. quote \<notin> set (booking_id r)) sample_table \<and>
   quote \<notin> set ''B002'' \<and> quote \<in> set ([quote] @ ''B002'' @ [quote]) \<and>
   fst (get_booking_by_id ''B002'' (Some sample_rows)) = Inr (sample_rows ! 1) \<and>
   db_get_booking_by_id ''B002'' sample_table = Inr (sample_table ! 1) \<and>
   fst (get_booking_by_id ([quote] @ ''B002'' @ [quote]) (Some sample_rows))
     = Inl (HTTPException 404 ''Booking not found'')"
proof -
  have f: "find (\<lambda>r. strip_quotes (booking_id r) = ''B002'') sample_rows = Some (sample_rows ! 1)"
    "find (\<lambda>r. strip_quotes (booking_id r) = ''B002'') sample_table = Some (sample_table ! 1)"
    by (simp_all add: sample_rows_def sample_table_def normalize_dataframe_def strip_quotes_def
        quote_def)
  have q: "quote \<notin> set ''B002''" "quote \<in> set ([quote] @ ''B002'' @ [quote])"
    by (simp_all add: quote_def)
  from lookup_by_unquoted_id [OF sample_rows_wrapped, of "''B002''"]
       lookup_by_unquoted_id [OF sample_rows_wrapped, of "[quote] @ ''B002'' @ [quote]"] q f
  show ?thesis
    using sample_rows_wrapped by (simp add: list_all_iff)
qed

section \<open>Filters of the listing\<close>

lemma set_head: "set (head n xs) \<subseteq> set xs"
  by (auto simp: head_def dest: in_set_takeD)

lemma file_listing_filter:
  "get_bookings limit status vt cid (Some df) =
     (Inr \<lparr>bookings = head limit (filter (listing_filter (\<lambda>c. [quote] @ c @ [quote]) status vt cid) df),
           total_found = length (filter (listing_filter (\<lambda>c. [quote] @ c @ [quote]) status vt cid) df),
           returned = length (head limit
             (filter (listing_filter (\<lambda>c. [quote] @ c @ [quote]) status vt cid) df))\<rparr>,
      Some df)"
proof -
  have "filter (listing_filter (\<lambda>c. [quote] @ c @ [quote]) status vt cid) df
      = (let f1 = (if truthy status then filter (\<lambda>r. Some (booking_status r) = status) df else df);
             f2 = (if truthy vt then filter (\<lambda>r. Some (vehicle_type r) = vt) f1 else f1)
         in (if truthy cid then filter (\<lambda>r. customer_id r = [quote] @ the cid @ [quote]) f2 else f2))"
    by (cases status; cases vt; cases cid)
       (auto simp: listing_filter_def truthy_def Let_def intro: filter_cong)
  then show ?thesis
    by (simp add: get_bookings_def Let_def)
qed

lemma db_listing_filter:
  "where_sql status vt cid = listing_filter (\<lambda>c. c) status vt cid"
  by (cases status; cases vt; cases cid) (auto simp: where_sql_def listing_filter_def truthy_def)

text \<open>
  C2, as stated, fails: \<open>total_found\<close> counts rows, not distinct bookings. With the same
  booking row twice in the file, the listing for status \<open>Completed\<close> finds 2 while the
  distinct count of \<open>Completed\<close> bookings, as the status breakdown reports it, is 1.
\<close>

theorem listing_total_counterexample:
  "fst (get_bookings 100 (Some ''Completed'') None None (Some duplicated_rows))
     = Inr \<lparr>bookings = duplicated_rows, total_found = 2, returned = 2\<rparr> \<and>
   get_booking_status_breakdown duplicated_rows = [(''Completed'', 1)] \<and>
   spec_distinct_bookings {r \<in> set duplicated_rows. booking_status r = ''Completed''} = 1"
proof -
  have "fst (get_bookings 100 (Some ''Completed'') None None (Some duplicated_rows))
     = Inr \<lparr>bookings = duplicated_rows, total_found = 2, returned = 2\<rparr>"
    by (simp add: get_bookings_def truthy_def head_def duplicated_rows_def Let_def)
  moreover have "spec_distinct_bookings {r \<in> set duplicated_rows. booking_status r = ''Completed''} = 1"
    using status_count [of "''Completed''" 1 duplicated_rows]
    by (simp add: duplicated_rows_results)
  ultimately show ?thesis by (simp add: duplicated_rows_results)
qed

text \<open>
  C2, amended. In both variants the filters that are set (non-empty) are applied as a
  conjunction of equality predicates before the truncation to the limit; the file-backed
  variant compares the stored customer identifier with the given one wrapped in quotes. Every
  returned record satisfies all of them, \<open>total_found\<close> is the number of rows that satisfy
  them before truncation, and \<open>returned\<close> is the number of rows returned. For a listing by a
  non-empty status \<open>S\<close> alone, \<open>total_found\<close> is the number of rows with that status, which is
  the distinct-booking count of these rows when their booking identifiers are pairwise
  different.
\<close>

theorem listing_filters_conjunctive:
  "(\<exists>resp. get_bookings limit status vt cid (Some df) = (Inr resp, Some df) \<and>
      bookings resp = head limit (filter (listing_filter (\<lambda>c. [quote] @ c @ [quote]) status vt cid) df) \<and>
      (\<forall>r \<in> set (bookings resp). listing_filter (\<lambda>c. [quote] @ c @ [quote]) status vt cid r) \<and>
      total_found resp = length (filter (listing_filter (\<lambda>c. [quote] @ c @ [quote]) status vt cid) df) \<and>
      returned resp = length (bookings resp)) \<and>
   (0 \<le> limit \<longrightarrow>
     (\<exists>resp. db_get_bookings limit status vt cid tbl = Inr resp \<and>
        bookings resp = LIMIT (nat limit)
          (ORDER_BY listing_order (filter (listing_filter (\<lambda>c. c) status vt cid) tbl)) \<and>
        (\<forall>r \<in> set (bookings resp). listing_filter (\<lambda>c. c) status vt cid r) \<and>
        total_found resp = length (filter (listing_filter (\<lambda>c. c) status vt cid) tbl) \<and>
        returned resp = length (bookings resp))) \<and>
   (S \<noteq> [] \<longrightarrow>
     (\<exists>resp. get_bookings limit (Some S) None None (Some df) = (Inr resp, Some df) \<and>
        total_found resp = length (filter (\<lambda>r. booking_status r = S) df) \<and>
        (distinct (map (\<lambda>r. strip_quotes (booking_id r)) (filter (\<lambda>r. booking_status r = S) df)) \<longrightarrow>
           total_found resp = spec_distinct_bookings {r \<in> set df. booking_status r = S}))) \<and>
   (S \<noteq> [] \<and> 0 \<le> limit \<longrightarrow>
     (\<exists>resp. db_get_bookings limit (Some S) None None tbl = Inr resp \<and>
        total_found resp = length (filter (\<lambda>r. booking_status r = S) tbl) \<and>
        (distinct (map booking_id (filter (\<lambda>r. booking_status r = S) tbl)) \<longrightarrow>
           total_found resp = stored_distinct_bookings {r \<in> set tbl. booking_status r = S})))"
proof (intro conjI impI)
  show "\<exists>resp. get_bookings limit status vt cid (Some df) = (Inr resp, Some df) \<and>
      bookings resp = head limit (filter (listing_filter (\<lambda>c. [quote] @ c @ [quote]) status vt cid) df) \<and>
      (\<forall>r \<in> set (bookings resp). listing_filter (\<lambda>c. [quote] @ c @ [quote]) status vt cid r) \<and>
      total_found resp = length (filter (listing_filter (\<lambda>c. [quote] @ c @ [quote]) status vt cid) df) \<and>
      returned resp = length (bookings resp)"
    using set_head [of limit "filter (listing_filter (\<lambda>c. [quote] @ c @ [quote]) status vt cid) df"]
    by (auto simp: file_listing_filter)
next
  assume "0 \<le> limit"
  then show "\<exists>resp. db_get_bookings limit status vt cid tbl = Inr resp \<and>
        bookings resp = LIMIT (nat limit)
          (ORDER_BY listing_order (filter (listing_filter (\<lambda>c. c) status vt cid) tbl)) \<and>
        (\<forall>r \<in> set (bookings resp). listing_filter (\<lambda>c. c) status vt cid r) \<and>
        total_found resp = length (filter (listing_filter (\<lambda>c. c) status vt cid) tbl) \<and>
        returned resp = length (bookings resp)"
    using set_LIMIT [of "nat limit"
        "ORDER_BY listing_order (filter (listing_filter (\<lambda>c. c) status vt cid) tbl)"]
    by (auto simp: db_get_bookings_def db_listing_filter Let_def)
next
  assume S: "S \<noteq> []"
  have f: "filter (listing_filter (\<lambda>c. [quote] @ c @ [quote]) (Some S) None None) df
      = filter (\<lambda>r. booking_status r = S) df"
    using S by (intro filter_cong refl) (simp add: listing_filter_def)
  have "distinct (map (\<lambda>r. strip_quotes (booking_id r)) (filter (\<lambda>r. booking_status r = S) df)) \<Longrightarrow>
      length (filter (\<lambda>r. booking_status r = S) df)
        = spec_distinct_bookings {r \<in> set df. booking_status r = S}"
    using distinct_card [of "map (\<lambda>r. strip_quotes (booking_id r)) (filter (\<lambda>r. booking_status r = S) df)"]
    by (simp add: spec_distinct_bookings_def)
  then show "\<exists>resp. get_bookings limit (Some S) None None (Some df) = (Inr resp, Some df) \<and>
        total_found resp = length (filter (\<lambda>r. booking_status r = S) df) \<and>
        (distinct (map (\<lambda>r. strip_quotes (booking_id r)) (filter (\<lambda>r. booking_status r = S) df)) \<longrightarrow>
           total_found resp = spec_distinct_bookings {r \<in> set df. booking_status r = S})"
    unfolding file_listing_filter f by simp
next
  assume "S \<noteq> [] \<and> 0 \<le> limit"
  then have S: "S \<noteq> []" and l: "0 \<le> limit" by simp_all
  have f: "filter (where_sql (Some S) None None) tbl = filter (\<lambda>r. booking_status r = S) tbl"
    using S by (intro filter_cong refl) (simp add: where_sql_def truthy_def)
  have "distinct (map booking_id (filter (\<lambda>r. booking_status r = S) tbl)) \<Longrightarrow>
      length (filter (\<lambda>r. booking_status r = S) tbl)
        = stored_distinct_bookings {r \<in> set tbl. booking_status r = S}"
    using distinct_card [of "map booking_id (filter (\<lambda>r. booking_status r = S) tbl)"]
    by (simp add: stored_distinct_bookings_def)
  then show "\<exists>resp. db_get_bookings limit (Some S) None None tbl = Inr resp \<and>
        total_found resp = length (filter (\<lambda>r. booking_status r = S) tbl) \<and>
        (distinct (map booking_id (filter (\<lambda>r. booking_status r = S) tbl)) \<longrightarrow>
           total_found resp = stored_distinct_bookings {r \<in> set tbl. booking_status r = S})"
    using l by (simp add: db_get_bookings_def Let_def f)
qed


lemma sample_rows_completed:
  "distinct (map (\<lambda>r. strip_quotes (booking_id r))
     (filter (\<lambda>r. booking_status r = ''Completed'') sample_rows))"
  "distinct (map booking_id (filter (\<lambda>r. booking_status r = ''Completed'') sample_table))"
  "length (filter (\<lambda>r. booking_status r = ''Completed'') sample_rows) = 3"
  "length (filter (\<lambda>r. booking_status r = ''Completed'') sample_table) = 3"
  by (simp_all add: sample_rows_def sample_table_def normalize_dataframe_def strip_quotes_def
        quote_def)

theorem listing_filters_conjunctive_witness:
  "(0::int) \<le> 100 \<and> ''Completed'' \<noteq> [] \<and>
   distinct (map (\<lambda>r. strip_quotes (booking_id r))
     (filter (\<lambda>r. booking_status r = ''Completed'') sample_rows)) \<and>
   distinct (map booking_id (filter (\<lambda>r. booking_status r = ''Completed'') sample_table)) \<and>
   spec_distinct_bookings {r \<in> set sample_rows. booking_status r = ''Completed''} = 3 \<and>
   stored_distinct_bookings {r \<in> set sample_table. booking_status r = ''Completed''} = 3 \<and>
   (\<exists>resp. get_bookings 100 (Some ''Completed'') None None (Some sample_rows)
              = (Inr resp, Some sample_rows) \<and> total_found resp = 3) \<and>
   (\<exists>resp. db_get_bookings 100 (Some ''Completed'') None None sample_table = Inr resp \<and>
            total_found resp = 3)"
proof -
  note t = listing_filters_conjunctive [of 100 "Some ''Completed''" None None sample_rows
      sample_table "''Completed''"]
  have s: "''Completed'' \<noteq> []" and l: "(0::int) \<le> 100" by simp_all
  note t3 = t [THEN conjunct2, THEN conjunct2, THEN conjunct1, THEN mp, OF s]
  note t4 = t [THEN conjunct2, THEN conjunct2, THEN conjunct2, THEN mp, OF conjI [OF s l]]
  from t3 obtain resp where r: "get_bookings 100 (Some ''Completed'') None None (Some sample_rows)
        = (Inr resp, Some sample_rows)"
      "total_found resp = length (filter (\<lambda>r. booking_status r = ''Completed'') sample_rows)"
      "distinct (map (\<lambda>r. strip_quotes (booking_id r))
          (filter (\<lambda>r. booking_status r = ''Completed'') sample_rows)) \<longrightarrow>
       total_found resp = spec_distinct_bookings {r \<in> set sample_rows. booking_status r = ''Completed''}"
    by blast
  from t4 obtain resp' where r': "db_get_bookings 100 (Some ''Completed'') None None sample_table
        = Inr resp'"
      "total_found resp' = length (filter (\<lambda>r. booking_status r = ''Completed'') sample_table)"
      "distinct (map booking_id (filter (\<lambda>r. booking_status r = ''Completed'') sample_table)) \<longrightarrow>
       total_found resp' = stored_distinct_bookings {r \<in> set sample_table. booking_status r = ''Completed''}"
    by blast
  from r r' show ?thesis
    by (simp add: sample_rows_completed)
qed

end
